theory Spec2Isabelle
  imports Main "HOL-Library.Char_ord" "HOL-Library.List_Lexorder"
begin

section \<open>Simple-File-System: a shallow embedding of \<open>main.go\<close>\<close>

text \<open>
  The program is one Go file: four HTTP handlers over a storage directory
  \<open>uploads\<close>, a log file \<open>log.txt\<close> and a configuration value loaded at start-up.
  The handlers are embedded as HOL functions over an explicit file-system state.
  What the Go standard library and \<open>github.com/google/uuid\<close> do is not part of
  \<open>main.go\<close>; each library function the handlers call is modelled by a definition
  named after it (\<open>Ext\<close>, \<open>Base\<close>, \<open>Clean\<close>, \<open>Join\<close>, \<open>Rel\<close>, \<open>os_Stat\<close>,
  \<open>os_OpenFile\<close>, \<open>http_ServeFile\<close>, ...) whose comment says which library behaviour
  it follows, or is a field of the record \<open>env\<close> when its result is not determined
  by the program state (random numbers, the clock, I/O faults, the MIME table,
  what \<open>net/http\<close> makes of a range or a conditional request).
\<close>

subsection \<open>Data model (lines 17--36)\<close>

record Config =
  Port :: int
  LogTimestamp :: bool
  CustomHTMLHead :: string
  CustomHTMLBody :: string
  EnableXSSProtection :: bool

record FileMetadata =
  ID :: string
  Filename :: string

definition uploadsDir :: string where
  "uploadsDir = ''uploads''"

definition logFileName :: string where
  "logFileName = ''log.txt''"

text \<open>
  Errors are values. \<open>ENOENT\<close>, \<open>ENOTDIR\<close>, \<open>EISDIR\<close>, \<open>EEXIST\<close>, \<open>EINVAL\<close> are the
  errors of the system calls behind \<open>os.Stat\<close> and \<open>os.OpenFile\<close>; \<open>EIO\<close> stands for
  any failure of a read or write (a full disk, a broken connection, no entropy);
  \<open>RelError\<close> is the error of \<open>filepath.Rel\<close>.
\<close>

datatype err = ENOENT | ENOTDIR | EISDIR | EEXIST | EINVAL | EIO | RelError

text \<open>\<open>os.IsNotExist\<close>: of the errors above only \<open>ENOENT\<close> is \<open>ErrNotExist\<close>.\<close>

definition os_IsNotExist :: "err \<Rightarrow> bool" where
  "os_IsNotExist e = (e = ENOENT)"

subsection \<open>\<open>path/filepath\<close> on a Unix system\<close>

definition IsPathSeparator :: "char \<Rightarrow> bool" where
  "IsPathSeparator c = (c = CHR ''/'')"

text \<open>
  \<open>filepath.Ext\<close>: the loop runs from the last byte towards the first, stops at a
  path separator, and returns the suffix that starts at the first dot it meets.
  \<open>ext_scan\<close> is that loop; its first argument is the part of the path still to
  the left of the index, reversed, and its second the part already passed.
\<close>

fun ext_scan :: "string \<Rightarrow> string \<Rightarrow> string" where
  "ext_scan [] seen = []"
| "ext_scan (c # left) seen =
     (if IsPathSeparator c then []
      else if c = CHR ''.'' then c # seen
      else ext_scan left (c # seen))"

definition Ext :: "string \<Rightarrow> string" where
  "Ext path = ext_scan (rev path) []"

text \<open>
  \<open>filepath.Base\<close>: the empty path gives \<open>.\<close>; trailing separators are stripped;
  the result is what follows the last separator, or \<open>/\<close> when nothing is left.
\<close>

definition Base :: "string \<Rightarrow> string" where
  "Base path =
     (if path = [] then ''.''
      else let stripped = rev (dropWhile IsPathSeparator (rev path));
               elem = rev (takeWhile (\<lambda>c. \<not> IsPathSeparator c) (rev stripped))
           in if elem = [] then ''/'' else elem)"

text \<open>
  Paths as lists of elements: \<open>split_on\<close> cuts a string at every byte that
  satisfies the predicate (as \<open>strings.Split\<close> does for one separator, so that an
  empty string has one empty element); \<open>split_sep\<close> cuts at the path separator
  and \<open>join_sep\<close> puts the separators back.
\<close>

fun split_on :: "(char \<Rightarrow> bool) \<Rightarrow> string \<Rightarrow> string list" where
  "split_on P [] = [[]]"
| "split_on P (c # cs) =
     (if P c then [] # split_on P cs
      else (case split_on P cs of [] \<Rightarrow> [[c]] | x # xs \<Rightarrow> (c # x) # xs))"

definition split_sep :: "string \<Rightarrow> string list" where
  "split_sep = split_on IsPathSeparator"

fun join_sep :: "string list \<Rightarrow> string" where
  "join_sep [] = []"
| "join_sep [x] = x"
| "join_sep (x # y # ys) = x @ CHR ''/'' # join_sep (y # ys)"

text \<open>
  \<open>filepath.Clean\<close>, element by element. The library works on bytes with a write
  index \<open>w\<close> and a mark \<open>dotdot\<close> below which \<open>..\<close> may not remove anything; here
  the output is the stack \<open>out\<close> of elements written so far (last element first).
  An empty element and \<open>.\<close> are dropped. \<open>..\<close> removes the last element when
  there is one that is not itself a kept \<open>..\<close> (the library's \<open>out.w > dotdot\<close>);
  otherwise it is kept on a relative path and dropped on a rooted one.
\<close>

fun clean_elems :: "bool \<Rightarrow> string list \<Rightarrow> string list \<Rightarrow> string list" where
  "clean_elems rooted out [] = rev out"
| "clean_elems rooted out (e # es) =
     (if e = [] \<or> e = ''.'' then clean_elems rooted out es
      else if e = ''..'' then
        (case out of
           x # out' \<Rightarrow>
             if x \<noteq> ''..'' then clean_elems rooted out' es
             else clean_elems rooted (e # out) es
         | [] \<Rightarrow>
             if rooted then clean_elems rooted out es
             else clean_elems rooted (e # out) es)
      else clean_elems rooted (e # out) es)"

definition Clean :: "string \<Rightarrow> string" where
  "Clean path =
     (if path = [] then ''.''
      else let rooted = IsPathSeparator (hd path);
               out = clean_elems rooted [] (split_sep path)
           in if rooted then CHR ''/'' # join_sep out
              else if out = [] then ''.'' else join_sep out)"

text \<open>
  \<open>filepath.Join\<close>: the elements from the first non-empty one on are joined with
  separators and the result is cleaned; with no non-empty element the result is
  the empty string.
\<close>

fun Join :: "string list \<Rightarrow> string" where
  "Join [] = []"
| "Join (e # elem) = (if e \<noteq> [] then Clean (join_sep (e # elem)) else Join elem)"

text \<open>
  \<open>filepath.Rel\<close>. Both paths are cleaned and equal paths give \<open>.\<close>; a rooted
  and a relative path cannot be related. The library then moves two indexes over
  the paths, one element at a time, while the elements are equal and neither
  path is used up: \<open>rel_skip\<close> is that loop on what is left of each path, and its
  third result says whether the loop stopped at two different elements. If the
  base element it stopped at is \<open>..\<close> the result is an error. If something is
  left of the base, the result is one \<open>..\<close> for each element left, followed by
  what is left of the target; otherwise it is what is left of the target.
\<close>

definition elem_of :: "string \<Rightarrow> string" where
  "elem_of p = takeWhile (\<lambda>c. \<not> IsPathSeparator c) p"

function rel_skip :: "string \<Rightarrow> string \<Rightarrow> string \<times> string \<times> bool" where
  "rel_skip b t =
     (if b = [] \<or> t = [] then (b, t, False)
      else if elem_of t \<noteq> elem_of b then (b, t, True)
      else rel_skip (drop (length (elem_of b) + 1) b) (drop (length (elem_of t) + 1) t))"
  by pat_completeness auto
termination
  by (relation "measure (\<lambda>(b, t). length b)") auto

definition Rel :: "string \<Rightarrow> string \<Rightarrow> err + string" where
  "Rel basepath targpath =
     (let base = Clean basepath; targ = Clean targpath
      in if targ = base then Inr ''.''
         else let base' = (if base = ''.'' then [] else base);
                  baseSlashed = (base' \<noteq> [] \<and> IsPathSeparator (hd base'));
                  targSlashed = (targ \<noteq> [] \<and> IsPathSeparator (hd targ))
              in if baseSlashed \<noteq> targSlashed then Inl RelError
                 else (case rel_skip base' targ of
                         (b, t, differ) \<Rightarrow>
                           if differ \<and> elem_of b = ''..'' then Inl RelError
                           else if b \<noteq> [] then
                             Inr (''..''
                                  @ concat (replicate (length (filter IsPathSeparator b)) ''/..'')
                                  @ (if t \<noteq> [] then CHR ''/'' # t else []))
                           else Inr t))"

subsection \<open>\<open>fmt\<close>: formatting with string operands\<close>

text \<open>
  Every operand the program passes to \<open>fmt.Sprintf\<close> and \<open>fmt.Fprintf\<close> in the
  handlers is a string. \<open>doPrintf\<close> follows the library's function of that name
  for such operands: text up to a \<open>%\<close> is copied; \<open>%\<close> at the end of the format
  prints \<open>%!(NOVERB)\<close>; \<open>%%\<close> prints a percent sign; a verb with no operand left
  prints \<open>%!v(MISSING)\<close> with the verb in place of \<open>v\<close>; with an operand, \<open>%s\<close> and
  \<open>%v\<close> print the string, \<open>%T\<close> prints its type, and a verb that strings do not
  have prints \<open>%!v(string=...)\<close>; operands left over at the end are printed as
  \<open>%!(EXTRA string=..., ...)\<close>. Flags, widths, precisions, operand indexes, verbs
  outside ASCII and the verbs \<open>%q\<close>, \<open>%x\<close>, \<open>%X\<close> are outside this model: on them the
  result is \<open>None\<close>. No format string of the program contains one (the lemmas
  \<open>Sprintf_*\<close> below give the output of each, for all operands). \<open>Sprintf\<close> is
  the text \<open>doPrintf\<close> gives, and nothing where the model gives no text.
\<close>

definition beyond_model :: "char \<Rightarrow> bool" where
  "beyond_model c =
     (c \<in> set ''#0+- 123456789*.[qxX'' \<or> (128::nat) \<le> of_char c)"

definition missingArg :: "char \<Rightarrow> string" where
  "missingArg verb = ''%!'' @ [verb] @ ''(MISSING)''"

definition printArg :: "string \<Rightarrow> char \<Rightarrow> string" where
  "printArg arg verb =
     (if verb = CHR ''s'' \<or> verb = CHR ''v'' then arg
      else if verb = CHR ''T'' then ''string''
      else ''%!'' @ [verb] @ ''(string='' @ arg @ '')'')"

fun extra_list :: "string list \<Rightarrow> string" where
  "extra_list [] = []"
| "extra_list [x] = ''string='' @ x"
| "extra_list (x # y # ys) = ''string='' @ x @ '', '' @ extra_list (y # ys)"

definition extraArgs :: "string list \<Rightarrow> string" where
  "extraArgs a = (if a = [] then [] else ''%!(EXTRA '' @ extra_list a @ '')'')"

fun doPrintf :: "string \<Rightarrow> string list \<Rightarrow> string option" where
  "doPrintf [] a = Some (extraArgs a)"
| "doPrintf (c # format) a =
     (if c \<noteq> CHR ''%'' then map_option ((#) c) (doPrintf format a)
      else (case format of
              [] \<Rightarrow> Some (''%!(NOVERB)'' @ extraArgs a)
            | verb # format' \<Rightarrow>
                if beyond_model verb then None
                else if verb = CHR ''%'' then map_option ((#) CHR ''%'') (doPrintf format' a)
                else (case a of
                        [] \<Rightarrow> map_option ((@) (missingArg verb)) (doPrintf format' [])
                      | arg # a' \<Rightarrow>
                          map_option ((@) (printArg arg verb)) (doPrintf format' a'))))"

definition Sprintf :: "string \<Rightarrow> string list \<Rightarrow> string" where
  "Sprintf format a = (case doPrintf format a of Some s \<Rightarrow> s | None \<Rightarrow> [])"

subsection \<open>The file system and the operator console\<close>

text \<open>
  A file-system object is a regular file with its bytes or a directory with its
  named entries; there are no links, owners or permission bits, and no limit on
  the length of a name. The state of the
  world is the tree below the root directory, the working directory of the
  process (the list of names that leads to it from the root), and what the
  program has printed on its standard output.
\<close>

datatype node = File string | Dir "(string \<times> node) list"

text \<open>
  The six messages the handlers print with \<open>fmt.Println\<close>, by the place that
  prints them: line 118 (the form file cannot be parsed), 131 (the target file
  cannot be created), 140 (the file cannot be saved), 183 (the file list cannot
  be read), 271 and 279 (the log cannot be written), 286 (no UUID).
\<close>

datatype console_line =
  CannotParseFile | CannotCreateFile err | CannotSaveFile err
  | CannotGetFileList err | CannotWriteLog err | CannotGenerateUUID err

record world =
  fs_root :: node
  cwd :: "string list"
  console :: "console_line list"

definition Println :: "world \<Rightarrow> console_line \<Rightarrow> world" where
  "Println w l = w\<lparr>console := console w @ [l]\<rparr>"

text \<open>\<open>lookup_abs n p\<close> follows the names \<open>p\<close> downwards from the object \<open>n\<close>.\<close>

fun lookup_abs :: "node \<Rightarrow> string list \<Rightarrow> err + node" where
  "lookup_abs n [] = Inr n"
| "lookup_abs n (e # es) =
     (case n of
        File c \<Rightarrow> Inl ENOTDIR
      | Dir ents \<Rightarrow>
          (case map_of ents e of
             None \<Rightarrow> Inl ENOENT
           | Some n' \<Rightarrow> lookup_abs n' es))"

text \<open>
  Path resolution as the kernel does it, one element at a time from the
  directory \<open>cur\<close>: the object reached so far must be a directory; an empty
  element and \<open>.\<close> stay in it, \<open>..\<close> goes to its parent (the root is its own
  parent), a name goes to the entry of that name. The result is the list of
  names that leads from the root to the object found.
\<close>

fun namei :: "node \<Rightarrow> string list \<Rightarrow> string list \<Rightarrow> err + string list" where
  "namei r cur [] = Inr cur"
| "namei r cur (e # es) =
     (case lookup_abs r cur of
        Inl x \<Rightarrow> Inl x
      | Inr (File c) \<Rightarrow> Inl ENOTDIR
      | Inr (Dir ents) \<Rightarrow>
          if e = [] \<or> e = ''.'' then namei r cur es
          else if e = ''..'' then namei r (butlast cur) es
          else (case map_of ents e of
                  None \<Rightarrow> Inl ENOENT
                | Some n \<Rightarrow> namei r (cur @ [e]) es))"

definition start_dir :: "world \<Rightarrow> string \<Rightarrow> string list" where
  "start_dir w name = (if name \<noteq> [] \<and> IsPathSeparator (hd name) then [] else cwd w)"

text \<open>
  \<open>os.Stat\<close> (and \<open>os.Lstat\<close>, \<open>os.Open\<close> for reading: without links and
  permissions they find the same object). A name with a zero byte is refused
  with \<open>EINVAL\<close> before any system call; the empty name does not exist.
\<close>

definition os_Stat :: "world \<Rightarrow> string \<Rightarrow> err + node" where
  "os_Stat w name =
     (if CHR 0x00 \<in> set name then Inl EINVAL
      else if name = [] then Inl ENOENT
      else (case namei (fs_root w) (start_dir w name) (split_sep name) of
              Inl e \<Rightarrow> Inl e
            | Inr p \<Rightarrow> lookup_abs (fs_root w) p))"

definition os_Lstat :: "world \<Rightarrow> string \<Rightarrow> err + node" where
  "os_Lstat = os_Stat"

definition os_Open :: "world \<Rightarrow> string \<Rightarrow> err + node" where
  "os_Open = os_Stat"

text \<open>
  \<open>put_node p new n\<close> is the tree \<open>n\<close> with the object at \<open>p\<close> replaced by \<open>new\<close>;
  when only the last name of \<open>p\<close> is missing, the entry is added to its directory.
\<close>

fun put_entry :: "string \<Rightarrow> node \<Rightarrow> (string \<times> node) list \<Rightarrow> (string \<times> node) list" where
  "put_entry k v [] = [(k, v)]"
| "put_entry k v (p # ps) = (if fst p = k then (k, v) # ps else p # put_entry k v ps)"

fun put_node :: "string list \<Rightarrow> node \<Rightarrow> node \<Rightarrow> node" where
  "put_node [] new n = new"
| "put_node (e # es) new n =
     (case n of
        File c \<Rightarrow> File c
      | Dir ents \<Rightarrow>
          (case map_of ents e of
             None \<Rightarrow> if es = [] then Dir (put_entry e new ents) else Dir ents
           | Some n' \<Rightarrow> Dir (put_entry e (put_node es new n') ents)))"

text \<open>
  \<open>os.OpenFile\<close> for writing. The directory of the name is resolved first. A
  last element that names a directory (also \<open>.\<close>, \<open>..\<close> and the empty element
  after a trailing separator) gives \<open>EISDIR\<close>. An existing regular file is opened
  as it is: it is emptied only under \<open>O_TRUNC\<close>, and refused only under
  \<open>O_CREATE\<close> with \<open>O_EXCL\<close>. A missing file is created empty under \<open>O_CREATE\<close>.
  The handle is the place of the file in the tree and the append flag; every
  handle of the program is written once, from its start.
\<close>

datatype open_flag = O_WRONLY | O_CREATE | O_APPEND | O_TRUNC | O_EXCL

record handle =
  h_path :: "string list"
  h_append :: bool

definition os_OpenFile :: "world \<Rightarrow> string \<Rightarrow> open_flag list \<Rightarrow> err + world \<times> handle" where
  "os_OpenFile w name flag =
     (if CHR 0x00 \<in> set name then Inl EINVAL
      else if name = [] then Inl ENOENT
      else (case namei (fs_root w) (start_dir w name) (butlast (split_sep name)) of
              Inl e \<Rightarrow> Inl e
            | Inr dir \<Rightarrow>
                (case lookup_abs (fs_root w) dir of
                   Inl e \<Rightarrow> Inl e
                 | Inr (File c) \<Rightarrow> Inl ENOTDIR
                 | Inr (Dir ents) \<Rightarrow>
                     let final = last (split_sep name);
                         h = \<lparr>h_path = dir @ [final], h_append = (O_APPEND \<in> set flag)\<rparr>
                     in if final = [] \<or> final = ''.'' \<or> final = ''..'' then Inl EISDIR
                        else (case map_of ents final of
                                Some (Dir sub) \<Rightarrow> Inl EISDIR
                              | Some (File c) \<Rightarrow>
                                  if O_CREATE \<in> set flag \<and> O_EXCL \<in> set flag then Inl EEXIST
                                  else if O_TRUNC \<in> set flag
                                  then Inr (w\<lparr>fs_root := put_node (h_path h) (File []) (fs_root w)\<rparr>, h)
                                  else Inr (w, h)
                              | None \<Rightarrow>
                                  if O_CREATE \<in> set flag
                                  then Inr (w\<lparr>fs_root := put_node (h_path h) (File []) (fs_root w)\<rparr>, h)
                                  else Inl ENOENT))))"

text \<open>
  Writing \<open>data\<close> through a fresh handle: at the end of the file under
  \<open>O_APPEND\<close>, otherwise over the bytes from offset 0, leaving the bytes of the
  old content that lie beyond the written ones in place.
\<close>

definition file_Write :: "world \<Rightarrow> handle \<Rightarrow> string \<Rightarrow> world" where
  "file_Write w h data =
     (case lookup_abs (fs_root w) (h_path h) of
        Inr (File old) \<Rightarrow>
          w\<lparr>fs_root :=
               put_node (h_path h)
                 (File (if h_append h then old @ data else data @ drop (length data) old))
                 (fs_root w)\<rparr>
      | _ \<Rightarrow> w)"

subsection \<open>Names of directory entries\<close>

text \<open>
  A plain name is one that an entry of a directory can have: not empty, not
  \<open>.\<close> or \<open>..\<close>, without a separator and without a zero byte. In a well-formed
  tree every entry has a plain name and no directory has two entries of the
  same name.
\<close>

definition plain_name :: "string \<Rightarrow> bool" where
  "plain_name e \<longleftrightarrow>
     e \<noteq> [] \<and> e \<noteq> ''.'' \<and> e \<noteq> ''..'' \<and> CHR ''/'' \<notin> set e \<and> CHR 0x00 \<notin> set e"

fun wf_node :: "node \<Rightarrow> bool" where
  "wf_node (File c) = True"
| "wf_node (Dir ents) =
     (distinct (map fst ents) \<and> (\<forall>(k, n) \<in> set ents. plain_name k \<and> wf_node n))"

subsection \<open>What the program state does not determine\<close>

text \<open>
  \<open>uuid_NewRandom\<close> is the result of \<open>uuid.NewRandom()\<close>, the identifier already in
  the textual form that \<open>String()\<close> gives it; \<open>time_Now\<close> is the local time in the
  layout \<open>2006-01-02 15:04:05\<close>; \<open>copy_fault = Some n\<close> makes \<open>io.Copy\<close> fail after
  at most \<open>n\<close> bytes have been written; \<open>log_fault\<close> makes the write to the log
  fail; \<open>mime_TypeByExtension\<close> is the MIME table of the system (the empty string
  for an extension it does not know); \<open>dirList\<close> is the page \<open>net/http\<close> renders for
  the entries of a directory, each a name and whether it is a directory.

  The modification times of the files are not part of the state. What \<open>net/http\<close>
  makes of a request with a \<open>Range\<close> or a conditional header field depends on
  them (and on the size of the file): \<open>negotiate\<close> is its decision for the header
  fields of the request and the content of the file, and \<open>dirNotModified\<close> says
  whether the directory is unchanged since the time that \<open>If-Modified-Since\<close>
  names.
\<close>

datatype served =
  Whole
| NotModified
| PreconditionFailed
| RangeNotSatisfiable string
| PartialContent "string option" string

record env =
  uuid_NewRandom :: "err + string"
  time_Now :: string
  copy_fault :: "nat option"
  log_fault :: bool
  mime_TypeByExtension :: "string \<Rightarrow> string"
  dirList :: "(string \<times> bool) list \<Rightarrow> string"
  negotiate :: "(string \<times> string) list \<Rightarrow> string \<Rightarrow> served"
  dirNotModified :: "(string \<times> string) list \<Rightarrow> bool"

definition io_Copy :: "env \<Rightarrow> world \<Rightarrow> handle \<Rightarrow> string \<Rightarrow> world \<times> err option" where
  "io_Copy ev w dst src =
     (case copy_fault ev of
        None \<Rightarrow> (file_Write w dst src, None)
      | Some n \<Rightarrow> (file_Write w dst (take n src), Some EIO))"

subsection \<open>\<open>net/http\<close>: requests and responses\<close>

text \<open>
  Of a request the handlers and \<open>http.ServeFile\<close> read the method, the path and
  the raw query of the URL, the header fields (under their canonical names) and
  the form file \<open>file\<close>: \<open>FormFile\<close> is \<open>None\<close> when \<open>r.FormFile("file")\<close> returns an
  error, and otherwise \<open>handler.Filename\<close> (the file name of the part as
  \<open>mime/multipart\<close> gives it) and the bytes of the file. \<open>Request_Get\<close> is
  \<open>r.Header.Get\<close>: the empty string for a field that is absent.
  Of a response the model keeps the status, the header fields that the program
  or an error reply sets, and the body; the fields \<open>net/http\<close> adds on its own
  behalf (a sniffed \<open>Content-Type\<close>, \<open>Content-Length\<close>, \<open>Content-Range\<close>,
  \<open>Last-Modified\<close>, \<open>Accept-Ranges\<close>, \<open>Date\<close>) are not tracked.
\<close>

record request =
  Method :: string
  URLPath :: string
  RawQuery :: string
  Header :: "(string \<times> string) list"
  FormFile :: "(string \<times> string) option"

definition Request_Get :: "request \<Rightarrow> string \<Rightarrow> string" where
  "Request_Get r k = (case map_of (Header r) k of None \<Rightarrow> [] | Some v \<Rightarrow> v)"

record response =
  status :: nat
  headers :: "(string \<times> string) list"
  body :: string

definition new_response :: response where
  "new_response = \<lparr>status = 200, headers = [], body = []\<rparr>"

fun Header_Set :: "string \<Rightarrow> string \<Rightarrow> (string \<times> string) list \<Rightarrow> (string \<times> string) list" where
  "Header_Set k v [] = [(k, v)]"
| "Header_Set k v (p # ps) = (if fst p = k then (k, v) # ps else p # Header_Set k v ps)"

definition Header_Del :: "string \<Rightarrow> (string \<times> string) list \<Rightarrow> (string \<times> string) list" where
  "Header_Del k hs = filter (\<lambda>p. fst p \<noteq> k) hs"


definition set_header :: "response \<Rightarrow> string \<Rightarrow> string \<Rightarrow> response" where
  "set_header rw k v = rw\<lparr>headers := Header_Set k v (headers rw)\<rparr>"

definition Fprintf :: "response \<Rightarrow> string \<Rightarrow> string list \<Rightarrow> response" where
  "Fprintf rw format a = rw\<lparr>body := body rw @ Sprintf format a\<rparr>"

text \<open>
  \<open>http.Error\<close> sets the content type to plain text, forbids sniffing, writes
  the status and the message on a line. \<open>http.NotFound\<close> is the error reply
  \<open>404 page not found\<close>.
\<close>

definition http_Error :: "response \<Rightarrow> string \<Rightarrow> nat \<Rightarrow> response" where
  "http_Error rw msg code =
     (set_header (set_header rw ''Content-Type'' ''text/plain; charset=utf-8'')
        ''X-Content-Type-Options'' ''nosniff'')
     \<lparr>status := code, body := body rw @ msg @ ''\<newline>''\<rparr>"

definition http_NotFound :: "response \<Rightarrow> response" where
  "http_NotFound rw = http_Error rw ''404 page not found'' 404"

text \<open>
  \<open>http.ServeFile\<close>, as \<open>net/http\<close> documents it. A request whose URL path has
  an element \<open>..\<close> (between \<open>/\<close> or \<open>\\<close>) is refused with 400; a URL path that
  ends in \<open>/index.html\<close> is redirected to \<open>./\<close>. A redirect keeps the query of the
  request. A name with a zero byte is refused before it is opened, with the
  reply 404. A name that cannot be opened gives 404 when it or a directory on
  the way to it is missing and 500 otherwise. A directory is redirected to the
  URL with a final \<open>/\<close> when the URL has none; otherwise its \<open>index.html\<close> is
  served in its place if it can be opened, and a listing of its entries, sorted
  by name, if not.

  A regular file is sent whole with status 200 when the request has none of the
  header fields \<open>If-Match\<close>, \<open>If-Unmodified-Since\<close>, \<open>If-None-Match\<close>,
  \<open>If-Modified-Since\<close> and \<open>Range\<close>; the header fields the caller has set are
  kept (the callers here always set \<open>Content-Type\<close>, so none is derived from the
  content). With one of these fields the reply is what \<open>net/http\<close> decides: the
  whole file with status 200; 304, without the content type; 412; 416 as an
  error reply; or 206 with the part of the content asked for, under the content
  type \<open>multipart/byteranges\<close> when there are several ranges. The listing of a
  directory gives way to 304 when \<open>If-Modified-Since\<close> is set and the directory
  is unchanged.
\<close>

definition isSlashRune :: "char \<Rightarrow> bool" where
  "isSlashRune c = (c = CHR ''/'' \<or> c = CHR 0x5C)"

definition containsDotDot :: "string \<Rightarrow> bool" where
  "containsDotDot v = (''..'' \<in> set (split_on isSlashRune v))"

definition HasSuffix :: "string \<Rightarrow> string \<Rightarrow> bool" where
  "HasSuffix s suffix =
     (length suffix \<le> length s \<and> drop (length s - length suffix) s = suffix)"

definition localRedirect :: "response \<Rightarrow> request \<Rightarrow> string \<Rightarrow> response" where
  "localRedirect rw r newPath =
     (set_header rw ''Location''
        (if RawQuery r \<noteq> [] then newPath @ ''?'' @ RawQuery r else newPath))
     \<lparr>status := 301\<rparr>"

definition toHTTPError :: "err \<Rightarrow> string \<times> nat" where
  "toHTTPError e =
     (if e = ENOENT \<or> e = ENOTDIR then (''404 page not found'', 404)
      else (''500 Internal Server Error'', 500))"

definition conditional :: "request \<Rightarrow> bool" where
  "conditional r =
     list_ex (\<lambda>k. Request_Get r k \<noteq> [])
       [''If-Match'', ''If-Unmodified-Since'', ''If-None-Match'', ''If-Modified-Since'', ''Range'']"

definition writeNotModified :: "response \<Rightarrow> response" where
  "writeNotModified rw = rw\<lparr>status := 304, headers := Header_Del ''Content-Type'' (headers rw)\<rparr>"

definition serveContent :: "env \<Rightarrow> response \<Rightarrow> request \<Rightarrow> string \<Rightarrow> response" where
  "serveContent ev rw r content =
     (case (if conditional r then negotiate ev (Header r) content else Whole) of
        Whole \<Rightarrow> rw\<lparr>status := 200, body := body rw @ content\<rparr>
      | NotModified \<Rightarrow> writeNotModified rw
      | PreconditionFailed \<Rightarrow> rw\<lparr>status := 412\<rparr>
      | RangeNotSatisfiable msg \<Rightarrow> http_Error rw msg 416
      | PartialContent ctype part \<Rightarrow>
          (case ctype of None \<Rightarrow> rw | Some t \<Rightarrow> set_header rw ''Content-Type'' t)
          \<lparr>status := 206, body := body rw @ part\<rparr>)"

definition is_dir :: "node \<Rightarrow> bool" where
  "is_dir n = (case n of File content \<Rightarrow> False | Dir ents \<Rightarrow> True)"

definition dir_entries :: "(string \<times> node) list \<Rightarrow> (string \<times> bool) list" where
  "dir_entries ents = sort_key fst (map (\<lambda>(name, n). (name, is_dir n)) ents)"

definition serveDirList :: "env \<Rightarrow> response \<Rightarrow> request \<Rightarrow> (string \<times> node) list \<Rightarrow> response" where
  "serveDirList ev rw r ents =
     (if Request_Get r ''If-Modified-Since'' \<noteq> [] \<and> dirNotModified ev (Header r)
      then writeNotModified rw
      else (set_header rw ''Content-Type'' ''text/html; charset=utf-8'')
           \<lparr>status := 200, body := body rw @ dirList ev (dir_entries ents)\<rparr>)"

definition http_ServeFile :: "env \<Rightarrow> world \<Rightarrow> response \<Rightarrow> request \<Rightarrow> string \<Rightarrow> response" where
  "http_ServeFile ev w rw r name =
     (if containsDotDot (URLPath r) then http_Error rw ''invalid URL path'' 400
      else if HasSuffix (URLPath r) ''/index.html'' then localRedirect rw r ''./''
      else if CHR 0x00 \<in> set name then http_Error rw ''404 page not found'' 404
      else (case os_Open w name of
              Inl e \<Rightarrow> (case toHTTPError e of (msg, code) \<Rightarrow> http_Error rw msg code)
            | Inr (File content) \<Rightarrow> serveContent ev rw r content
            | Inr (Dir ents) \<Rightarrow>
                if URLPath r = [] \<or> last (URLPath r) \<noteq> CHR ''/''
                then localRedirect rw r (Base (URLPath r) @ ''/'')
                else (case os_Open w (name @ ''/index.html'') of
                        Inr (File content) \<Rightarrow> serveContent ev rw r content
                      | Inr (Dir ents') \<Rightarrow> serveDirList ev rw r ents'
                      | Inl e \<Rightarrow> serveDirList ev rw r ents)))"

subsection \<open>The pages (the raw string literals of lines 86, 155, 188 and 225)\<close>

text \<open>
  The four format strings, byte for byte; the Chinese text of the pages is
  given by its UTF-8 bytes.
\<close>

definition index_format :: string where
  \<open>index_format =
     ''\<newline>''
   @ ''<!DOCTYPE html>\<newline>''
   @ ''<html>\<newline>''
   @ ''<head>\<newline>''
   @ ''    <title>''
   @ [CHR 0xE6, CHR 0x96, CHR 0x87, CHR 0xE4, CHR 0xBB, CHR 0xB6, CHR 0xE4, CHR 0xB8, CHR 0x8A, CHR 0xE4, CHR 0xBC, CHR 0xA0]
   @ ''</title>\<newline>''
   @ ''    <style>\<newline>''
   @ ''        %s\<newline>''
   @ ''    </style>\<newline>''
   @ ''</head>\<newline>''
   @ ''<body>\<newline>''
   @ ''    %s\<newline>''
   @ ''    <h1>''
   @ [CHR 0xE6, CHR 0x96, CHR 0x87, CHR 0xE4, CHR 0xBB, CHR 0xB6, CHR 0xE4, CHR 0xB8, CHR 0x8A, CHR 0xE4, CHR 0xBC, CHR 0xA0]
   @ ''</h1>\<newline>''
   @ ''    <form action="/upload" method="post" enctype="multipart/form-data">\<newline>''
   @ ''        <input type="file" name="file" id="file">\<newline>''
   @ ''        <input type="submit" value="''
   @ [CHR 0xE4, CHR 0xB8, CHR 0x8A, CHR 0xE4, CHR 0xBC, CHR 0xA0]
   @ ''">\<newline>''
   @ ''    </form>\<newline>''
   @ ''    <br>\<newline>''
   @ ''    <a href="/list">''
   @ [CHR 0xE6, CHR 0x9F, CHR 0xA5, CHR 0xE7, CHR 0x9C, CHR 0x8B, CHR 0xE6, CHR 0x96, CHR 0x87, CHR 0xE4, CHR 0xBB, CHR 0xB6, CHR 0xE5, CHR 0x88, CHR 0x97, CHR 0xE8, CHR 0xA1, CHR 0xA8]
   @ ''</a>\<newline>''
   @ ''</body>\<newline>''
   @ ''</html>\<newline>''\<close>

definition upload_format :: string where
  \<open>upload_format =
     ''\<newline>''
   @ ''<!DOCTYPE html>\<newline>''
   @ ''<html>\<newline>''
   @ ''<head>\<newline>''
   @ ''    <title>''
   @ [CHR 0xE6, CHR 0x96, CHR 0x87, CHR 0xE4, CHR 0xBB, CHR 0xB6, CHR 0xE4, CHR 0xB8, CHR 0x8A, CHR 0xE4, CHR 0xBC, CHR 0xA0, CHR 0xE6, CHR 0x88, CHR 0x90, CHR 0xE5, CHR 0x8A, CHR 0x9F]
   @ ''</title>\<newline>''
   @ ''    <style>\<newline>''
   @ ''        %s\<newline>''
   @ ''    </style>\<newline>''
   @ ''</head>\<newline>''
   @ ''<body>\<newline>''
   @ ''    %s\<newline>''
   @ ''    <h1>''
   @ [CHR 0xE6, CHR 0x96, CHR 0x87, CHR 0xE4, CHR 0xBB, CHR 0xB6, CHR 0xE4, CHR 0xB8, CHR 0x8A, CHR 0xE4, CHR 0xBC, CHR 0xA0, CHR 0xE6, CHR 0x88, CHR 0x90, CHR 0xE5, CHR 0x8A, CHR 0x9F]
   @ ''</h1>\<newline>''
   @ ''    <p>''
   @ [CHR 0xE6, CHR 0x96, CHR 0x87, CHR 0xE4, CHR 0xBB, CHR 0xB6, CHR 0xE5, CHR 0xB7, CHR 0xB2, CHR 0xE4, CHR 0xB8, CHR 0x8A, CHR 0xE4, CHR 0xBC, CHR 0xA0, CHR 0xEF, CHR 0xBC, CHR 0x81]
   @ ''</p>\<newline>''
   @ ''    <p><a href="%s">''
   @ [CHR 0xE7, CHR 0x82, CHR 0xB9, CHR 0xE5, CHR 0x87, CHR 0xBB, CHR 0xE8, CHR 0xBF, CHR 0x99, CHR 0xE9, CHR 0x87, CHR 0x8C]
   @ ''</a>''
   @ [CHR 0xE6, CHR 0x9F, CHR 0xA5, CHR 0xE7, CHR 0x9C, CHR 0x8B, CHR 0xE6, CHR 0x96, CHR 0x87, CHR 0xE4, CHR 0xBB, CHR 0xB6, CHR 0xE5, CHR 0x88, CHR 0x97, CHR 0xE8, CHR 0xA1, CHR 0xA8, CHR 0xE3, CHR 0x80, CHR 0x82]
   @ ''</p>\<newline>''
   @ ''</body>\<newline>''
   @ ''</html>\<newline>''\<close>

definition list_head_format :: string where
  \<open>list_head_format =
     ''\<newline>''
   @ ''<!DOCTYPE html>\<newline>''
   @ ''<html>\<newline>''
   @ ''<head>\<newline>''
   @ ''    <title>''
   @ [CHR 0xE6, CHR 0x96, CHR 0x87, CHR 0xE4, CHR 0xBB, CHR 0xB6, CHR 0xE5, CHR 0x88, CHR 0x97, CHR 0xE8, CHR 0xA1, CHR 0xA8]
   @ ''</title>\<newline>''
   @ ''    <style>\<newline>''
   @ ''        %s\<newline>''
   @ ''        table {\<newline>''
   @ ''            border-collapse: collapse;\<newline>''
   @ ''            width: 100%;\<newline>''
   @ ''        }\<newline>''
   @ ''        th, td {\<newline>''
   @ ''            text-align: left;\<newline>''
   @ ''            padding: 8px;\<newline>''
   @ ''            border-bottom: 1px solid #ddd;\<newline>''
   @ ''        }\<newline>''
   @ ''        tr:hover {\<newline>''
   @ ''            background-color: #f5f5f5;\<newline>''
   @ ''        }\<newline>''
   @ ''        th {\<newline>''
   @ ''            background-color: #4CAF50;\<newline>''
   @ ''            color: white;\<newline>''
   @ ''        }\<newline>''
   @ ''    </style>\<newline>''
   @ ''</head>\<newline>''
   @ ''<body>\<newline>''
   @ ''    %s\<newline>''
   @ ''    <h1>''
   @ [CHR 0xE6, CHR 0x96, CHR 0x87, CHR 0xE4, CHR 0xBB, CHR 0xB6, CHR 0xE5, CHR 0x88, CHR 0x97, CHR 0xE8, CHR 0xA1, CHR 0xA8]
   @ ''</h1>\<newline>''
   @ ''    <table>\<newline>''
   @ ''        <tr>\<newline>''
   @ ''            <th>ID</th>\<newline>''
   @ ''            <th>''
   @ [CHR 0xE6, CHR 0x96, CHR 0x87, CHR 0xE4, CHR 0xBB, CHR 0xB6, CHR 0xE5, CHR 0x90, CHR 0x8D]
   @ ''</th>\<newline>''
   @ ''        </tr>\<newline>''\<close>

definition list_foot_format :: string where
  \<open>list_foot_format =
     ''\<newline>''
   @ ''    </table>\<newline>''
   @ ''    <br>\<newline>''
   @ ''    <a href="/">''
   @ [CHR 0xE8, CHR 0xBF, CHR 0x94, CHR 0xE5, CHR 0x9B, CHR 0x9E, CHR 0xE4, CHR 0xB8, CHR 0x8A, CHR 0xE4, CHR 0xBC, CHR 0xA0, CHR 0xE9, CHR 0xA1, CHR 0xB5, CHR 0xE9, CHR 0x9D, CHR 0xA2]
   @ ''</a>\<newline>''
   @ ''</body>\<newline>''
   @ ''</html>\<newline>''\<close>

definition list_row_format :: string where
  \<open>list_row_format = ''<tr><td>%s</td><td>%s</td></tr>''\<close>

text \<open>
  The pages these formats produce. With two operands the first format gives
  \<open>index_page\<close> and with three the second gives \<open>upload_page\<close>: the operands
  stand where the two or three verbs \<open>%s\<close> stood. The third format is used
  without operands (line 221): its two \<open>%s\<close> and the \<open>%;\<close> of its style sheet
  come out as \<open>%!s(MISSING)\<close> and \<open>%!;(MISSING)\<close>. That the formats give these
  pages is proved below (\<open>Sprintf_index_format\<close>, \<open>Sprintf_upload_format\<close>,
  \<open>Sprintf_list_head_format\<close>).
\<close>

definition index_part_1 :: string where
  \<open>index_part_1 =
     ''\<newline>''
   @ ''<!DOCTYPE html>\<newline>''
   @ ''<html>\<newline>''
   @ ''<head>\<newline>''
   @ ''    <title>''
   @ [CHR 0xE6, CHR 0x96, CHR 0x87, CHR 0xE4, CHR 0xBB, CHR 0xB6, CHR 0xE4, CHR 0xB8, CHR 0x8A, CHR 0xE4, CHR 0xBC, CHR 0xA0]
   @ ''</title>\<newline>''
   @ ''    <style>\<newline>''
   @ ''        ''\<close>

definition index_part_2 :: string where
  \<open>index_part_2 =
     ''\<newline>''
   @ ''    </style>\<newline>''
   @ ''</head>\<newline>''
   @ ''<body>\<newline>''
   @ ''    ''\<close>

definition index_part_3 :: string where
  \<open>index_part_3 =
     ''\<newline>''
   @ ''    <h1>''
   @ [CHR 0xE6, CHR 0x96, CHR 0x87, CHR 0xE4, CHR 0xBB, CHR 0xB6, CHR 0xE4, CHR 0xB8, CHR 0x8A, CHR 0xE4, CHR 0xBC, CHR 0xA0]
   @ ''</h1>\<newline>''
   @ ''    <form action="/upload" method="post" enctype="multipart/form-data">\<newline>''
   @ ''        <input type="file" name="file" id="file">\<newline>''
   @ ''        <input type="submit" value="''
   @ [CHR 0xE4, CHR 0xB8, CHR 0x8A, CHR 0xE4, CHR 0xBC, CHR 0xA0]
   @ ''">\<newline>''
   @ ''    </form>\<newline>''
   @ ''    <br>\<newline>''
   @ ''    <a href="/list">''
   @ [CHR 0xE6, CHR 0x9F, CHR 0xA5, CHR 0xE7, CHR 0x9C, CHR 0x8B, CHR 0xE6, CHR 0x96, CHR 0x87, CHR 0xE4, CHR 0xBB, CHR 0xB6, CHR 0xE5, CHR 0x88, CHR 0x97, CHR 0xE8, CHR 0xA1, CHR 0xA8]
   @ ''</a>\<newline>''
   @ ''</body>\<newline>''
   @ ''</html>\<newline>''\<close>

definition index_page :: "string \<Rightarrow> string \<Rightarrow> string" where
  "index_page head content = index_part_1 @ head @ index_part_2 @ content @ index_part_3"

definition upload_part_1 :: string where
  \<open>upload_part_1 =
     ''\<newline>''
   @ ''<!DOCTYPE html>\<newline>''
   @ ''<html>\<newline>''
   @ ''<head>\<newline>''
   @ ''    <title>''
   @ [CHR 0xE6, CHR 0x96, CHR 0x87, CHR 0xE4, CHR 0xBB, CHR 0xB6, CHR 0xE4, CHR 0xB8, CHR 0x8A, CHR 0xE4, CHR 0xBC, CHR 0xA0, CHR 0xE6, CHR 0x88, CHR 0x90, CHR 0xE5, CHR 0x8A, CHR 0x9F]
   @ ''</title>\<newline>''
   @ ''    <style>\<newline>''
   @ ''        ''\<close>

definition upload_part_2 :: string where
  \<open>upload_part_2 =
     ''\<newline>''
   @ ''    </style>\<newline>''
   @ ''</head>\<newline>''
   @ ''<body>\<newline>''
   @ ''    ''\<close>

definition upload_part_3 :: string where
  \<open>upload_part_3 =
     ''\<newline>''
   @ ''    <h1>''
   @ [CHR 0xE6, CHR 0x96, CHR 0x87, CHR 0xE4, CHR 0xBB, CHR 0xB6, CHR 0xE4, CHR 0xB8, CHR 0x8A, CHR 0xE4, CHR 0xBC, CHR 0xA0, CHR 0xE6, CHR 0x88, CHR 0x90, CHR 0xE5, CHR 0x8A, CHR 0x9F]
   @ ''</h1>\<newline>''
   @ ''    <p>''
   @ [CHR 0xE6, CHR 0x96, CHR 0x87, CHR 0xE4, CHR 0xBB, CHR 0xB6, CHR 0xE5, CHR 0xB7, CHR 0xB2, CHR 0xE4, CHR 0xB8, CHR 0x8A, CHR 0xE4, CHR 0xBC, CHR 0xA0, CHR 0xEF, CHR 0xBC, CHR 0x81]
   @ ''</p>\<newline>''
   @ ''    <p><a href="''\<close>

definition upload_part_4 :: string where
  \<open>upload_part_4 =
     ''">''
   @ [CHR 0xE7, CHR 0x82, CHR 0xB9, CHR 0xE5, CHR 0x87, CHR 0xBB, CHR 0xE8, CHR 0xBF, CHR 0x99, CHR 0xE9, CHR 0x87, CHR 0x8C]
   @ ''</a>''
   @ [CHR 0xE6, CHR 0x9F, CHR 0xA5, CHR 0xE7, CHR 0x9C, CHR 0x8B, CHR 0xE6, CHR 0x96, CHR 0x87, CHR 0xE4, CHR 0xBB, CHR 0xB6, CHR 0xE5, CHR 0x88, CHR 0x97, CHR 0xE8, CHR 0xA1, CHR 0xA8, CHR 0xE3, CHR 0x80, CHR 0x82]
   @ ''</p>\<newline>''
   @ ''</body>\<newline>''
   @ ''</html>\<newline>''\<close>

definition upload_page :: "string \<Rightarrow> string \<Rightarrow> string \<Rightarrow> string" where
  "upload_page head content fileURL =
     upload_part_1 @ head @ upload_part_2 @ content @ upload_part_3 @ fileURL @ upload_part_4"

definition list_part_1 :: string where
  \<open>list_part_1 =
     ''\<newline>''
   @ ''<!DOCTYPE html>\<newline>''
   @ ''<html>\<newline>''
   @ ''<head>\<newline>''
   @ ''    <title>''
   @ [CHR 0xE6, CHR 0x96, CHR 0x87, CHR 0xE4, CHR 0xBB, CHR 0xB6, CHR 0xE5, CHR 0x88, CHR 0x97, CHR 0xE8, CHR 0xA1, CHR 0xA8]
   @ ''</title>\<newline>''
   @ ''    <style>\<newline>''
   @ ''        ''\<close>

definition list_part_2 :: string where
  \<open>list_part_2 =
     ''\<newline>''
   @ ''        table {\<newline>''
   @ ''            border-collapse: collapse;\<newline>''
   @ ''            width: 100%!;(MISSING)\<newline>''
   @ ''        }\<newline>''
   @ ''        th, td {\<newline>''
   @ ''            text-align: left;\<newline>''
   @ ''            padding: 8px;\<newline>''
   @ ''            border-bottom: 1px solid #ddd;\<newline>''
   @ ''        }\<newline>''
   @ ''        tr:hover {\<newline>''
   @ ''            background-color: #f5f5f5;\<newline>''
   @ ''        }\<newline>''
   @ ''        th {\<newline>''
   @ ''            background-color: #4CAF50;\<newline>''
   @ ''            color: white;\<newline>''
   @ ''        }\<newline>''
   @ ''    </style>\<newline>''
   @ ''</head>\<newline>''
   @ ''<body>\<newline>''
   @ ''    ''\<close>

definition list_part_3 :: string where
  \<open>list_part_3 =
     ''\<newline>''
   @ ''    <h1>''
   @ [CHR 0xE6, CHR 0x96, CHR 0x87, CHR 0xE4, CHR 0xBB, CHR 0xB6, CHR 0xE5, CHR 0x88, CHR 0x97, CHR 0xE8, CHR 0xA1, CHR 0xA8]
   @ ''</h1>\<newline>''
   @ ''    <table>\<newline>''
   @ ''        <tr>\<newline>''
   @ ''            <th>ID</th>\<newline>''
   @ ''            <th>''
   @ [CHR 0xE6, CHR 0x96, CHR 0x87, CHR 0xE4, CHR 0xBB, CHR 0xB6, CHR 0xE5, CHR 0x90, CHR 0x8D]
   @ ''</th>\<newline>''
   @ ''        </tr>\<newline>''\<close>

definition list_head_page :: string where
  "list_head_page =
     list_part_1 @ ''%!s(MISSING)'' @ list_part_2 @ ''%!s(MISSING)'' @ list_part_3"


text \<open>The rows that the loop of lines 222--224 writes for a list of files.\<close>

definition list_rows :: "FileMetadata list \<Rightarrow> string" where
  "list_rows files =
     concat (map (\<lambda>file. ''<tr><td>'' @ ID file @ ''</td><td>'' @ Filename file @ ''</td></tr>'') files)"

subsection \<open>\<open>generateUUID\<close> (lines 283--290) and \<open>writeLog\<close> (lines 268--281)\<close>

definition generateUUID :: "env \<Rightarrow> world \<Rightarrow> string \<times> world" where
  "generateUUID ev w =
     (case uuid_NewRandom ev of
        Inl e \<Rightarrow> ([], Println w (CannotGenerateUUID e))
      | Inr uuidObj \<Rightarrow> (uuidObj, w))"

definition writeLog :: "env \<Rightarrow> world \<Rightarrow> string \<Rightarrow> world" where
  "writeLog ev w message =
     (case os_OpenFile w logFileName [O_WRONLY, O_CREATE, O_APPEND] of
        Inl e \<Rightarrow> Println w (CannotWriteLog e)
      | Inr (w', file) \<Rightarrow>
          let logMessage = Sprintf ''%s\<newline>'' [message]
          in if log_fault ev then Println w' (CannotWriteLog EIO)
             else file_Write w' file logMessage)"

subsection \<open>\<open>getFileList\<close> (lines 292--320)\<close>

text \<open>
  \<open>filepath.Walk\<close>: the root is looked up; a regular file is handed to the
  function; for a directory the function is called on the directory first, then
  the names of its entries are taken in sorted order, each is joined to the path
  of the directory, looked up (it is the entry of that name in the directory
  just read, if there is one) and walked. The first error the function returns
  ends the walk (the function of this program never returns \<open>SkipDir\<close>). The
  function gets the path, the object (if it was found) and the error of the
  look-up (if there was one), and here also the list it appends to.
\<close>

type_synonym 's WalkFunc = "string \<Rightarrow> node option \<Rightarrow> err option \<Rightarrow> 's \<Rightarrow> err + 's"

function walk :: "'s WalkFunc \<Rightarrow> string \<Rightarrow> node \<Rightarrow> 's \<Rightarrow> err + 's"
  and walk_names :: "'s WalkFunc \<Rightarrow> string \<Rightarrow> (string \<times> node) list \<Rightarrow> string list \<Rightarrow> 's \<Rightarrow> err + 's"
where
  "walk walkFn path (File c) s = walkFn path (Some (File c)) None s"
| "walk walkFn path (Dir ents) s =
     (case walkFn path (Some (Dir ents)) None s of
        Inl e \<Rightarrow> Inl e
      | Inr s' \<Rightarrow> walk_names walkFn path ents (sort (map fst ents)) s')"
| "walk_names walkFn path ents [] s = Inr s"
| "walk_names walkFn path ents (name # names) s =
     (let filename = Join [path, name]
      in case map_of ents name of
           None \<Rightarrow>
             (case walkFn filename None (Some ENOENT) s of
                Inl e \<Rightarrow> Inl e
              | Inr s' \<Rightarrow> walk_names walkFn path ents names s')
         | Some fileInfo \<Rightarrow>
             (case walk walkFn filename fileInfo s of
                Inl e \<Rightarrow> Inl e
              | Inr s' \<Rightarrow> walk_names walkFn path ents names s'))"
  by pat_completeness auto
termination
proof -
  have child: "size n < size (Dir ents)" if "map_of ents k = Some n"
    for ents :: "(string \<times> node) list" and k n
    using that by (induction ents) (auto split: if_splits)
  show ?thesis
    by (relation
          "(\<lambda>x. case x of Inl (f, p, n, s) \<Rightarrow> 2 * size n
                          | Inr (f, p, ents, names, s) \<Rightarrow> 2 * size (Dir ents) - 1)
           <*mlex*>
           (\<lambda>x. case x of Inl (f, p, n, s) \<Rightarrow> 0
                          | Inr (f, p, ents, names, s) \<Rightarrow> length names)
           <*mlex*> {}")
       (auto simp: wf_mlex mlex_less mlex_leq dest: child)
qed

definition filepath_Walk :: "world \<Rightarrow> string \<Rightarrow> 's WalkFunc \<Rightarrow> 's \<Rightarrow> err + 's" where
  "filepath_Walk w root walkFn s =
     (case os_Lstat w root of
        Inl e \<Rightarrow> walkFn root None (Some e) s
      | Inr info \<Rightarrow> walk walkFn root info s)"

text \<open>
  The function literal of lines 295--313; its last argument is the variable
  \<open>files\<close> it appends to. (An absent object comes with an error, so the last
  case is never reached.)
\<close>

definition listFn :: "FileMetadata list WalkFunc" where
  "listFn path info e files =
     (case e of
        Some x \<Rightarrow> Inl x
      | None \<Rightarrow>
          (case info of
             Some (File c) \<Rightarrow>
               (case Rel uploadsDir path of
                  Inl x \<Rightarrow> Inl x
                | Inr relPath \<Rightarrow> Inr (files @ [\<lparr>ID = relPath, Filename = Base relPath\<rparr>]))
           | Some (Dir ents) \<Rightarrow> Inr files
           | None \<Rightarrow> Inr files))"

definition getFileList :: "world \<Rightarrow> err + FileMetadata list" where
  "getFileList w = filepath_Walk w uploadsDir listFn []"

subsection \<open>The handlers (lines 84--266) and their routes (lines 56--59)\<close>

text \<open>
  A handler takes the configuration (the global \<open>config\<close>), the environment, the
  state of the world and the request, and returns the new state and the
  response; \<open>None\<close> is a run-time panic. The response writer starts as
  \<open>new_response\<close>.
\<close>

type_synonym handler = "Config \<Rightarrow> env \<Rightarrow> world \<Rightarrow> request \<Rightarrow> (world \<times> response) option"

definition indexHandler :: handler where
  "indexHandler config ev w r =
     (if Method r = ''GET''
      then Some (w, Fprintf new_response index_format
                      [CustomHTMLHead config, CustomHTMLBody config])
      else Some (w, http_NotFound new_response))"

definition uploadHandler :: handler where
  "uploadHandler config ev w r =
     (if Method r = ''POST'' then
        (case FormFile r of
           None \<Rightarrow>
             Some (Println w CannotParseFile, http_Error new_response ''Bad Request'' 400)
         | Some (filename, file) \<Rightarrow>
             let fileExt = Ext filename;
                 (uuid, w1) = generateUUID ev w;
                 fileID = uuid @ fileExt;
                 filePath = Join [uploadsDir, fileID]
             in (case os_OpenFile w1 filePath [O_WRONLY, O_CREATE] of
                   Inl e \<Rightarrow>
                     Some (Println w1 (CannotCreateFile e),
                           http_Error new_response ''Internal Server Error'' 500)
                 | Inr (w2, f) \<Rightarrow>
                     (case io_Copy ev w2 f file of
                        (w3, Some e) \<Rightarrow>
                          Some (Println w3 (CannotSaveFile e),
                                http_Error new_response ''Internal Server Error'' 500)
                      | (w3, None) \<Rightarrow>
                          let logMessage =
                                (if LogTimestamp config
                                 then filename @ Sprintf '' [%s]'' [time_Now ev]
                                 else filename);
                              w4 = writeLog ev w3 logMessage;
                              fileURL = Sprintf ''/file/%s'' [fileID]
                          in Some (w4, Fprintf new_response upload_format
                                         [CustomHTMLHead config, CustomHTMLBody config,
                                          fileURL]))))
      else Some (w, http_NotFound new_response))"

definition listHandler :: handler where
  "listHandler config ev w r =
     (if Method r = ''GET'' then
        (case getFileList w of
           Inl e \<Rightarrow>
             Some (Println w (CannotGetFileList e),
                   http_Error new_response ''Internal Server Error'' 500)
         | Inr files \<Rightarrow>
             Some (w, Fprintf
                        (foldl (\<lambda>rw file. Fprintf rw list_row_format [ID file, Filename file])
                           (Fprintf new_response list_head_format []) files)
                        list_foot_format []))
      else Some (w, http_NotFound new_response))"

text \<open>Lines 250--261: what \<open>fileHandler\<close> does once the existence check has passed.\<close>

definition serveStored :: "env \<Rightarrow> world \<Rightarrow> request \<Rightarrow> string \<Rightarrow> response" where
  \<open>serveStored ev w r filePath =
     (let filename = Base filePath;
          rw1 = set_header new_response ''Content-Disposition''
                  (Sprintf ''inline; filename="%s"'' [filename]);
          contentType = mime_TypeByExtension ev (Ext filename);
          contentType' = (if contentType = [] then ''application/octet-stream'' else contentType);
          rw2 = set_header rw1 ''Content-Type'' contentType'
      in http_ServeFile ev w rw2 r filePath)\<close>

definition fileHandler :: handler where
  \<open>fileHandler config ev w r =
     (if Method r = ''GET'' then
        if length (URLPath r) < length ''/file/'' then None
        else
          let fileID = drop (length ''/file/'') (URLPath r);
              filePath = Join [uploadsDir, fileID]
          in (case os_Stat w filePath of
                Inl e \<Rightarrow>
                  if os_IsNotExist e then Some (w, http_NotFound new_response)
                  else Some (w, serveStored ev w r filePath)
              | Inr info \<Rightarrow> Some (w, serveStored ev w r filePath))
      else Some (w, http_NotFound new_response))\<close>

definition routes :: "(string \<times> handler) list" where
  "routes =
     [(''/'', indexHandler), (''/upload'', uploadHandler),
      (''/list'', listHandler), (''/file/'', fileHandler)]"

subsection \<open>A concrete configuration, environment and state\<close>

text \<open>
  The examples below run the handlers in the directory \<open>/srv\<close>, which holds the
  log, and the storage directory with two files and a subdirectory. In the
  environment \<open>net/http\<close> lists a directory with one entry to the line, honours
  the range \<open>bytes=0-4\<close> and finds every file modified. In the second state the
  storage directory has a subdirectory with an \<open>index.html\<close>.
\<close>

definition config0 :: Config where
  "config0 =
     \<lparr>Port = 8080, LogTimestamp = True, CustomHTMLHead = ''body { margin: 0 }'',
      CustomHTMLBody = ''<p>hello</p>'', EnableXSSProtection = False\<rparr>"

definition env0 :: env where
  "env0 =
     \<lparr>uuid_NewRandom = Inr ''123e4567-e89b-42d3-a456-426614174000'',
      time_Now = ''2024-01-02 03:04:05'', copy_fault = None, log_fault = False,
      mime_TypeByExtension = (\<lambda>ext. if ext = ''.txt'' then ''text/plain; charset=utf-8'' else []),
      dirList =
        (\<lambda>es. concat (map (\<lambda>(name, d). name @ (if d then ''/'' else []) @ ''\<newline>'') es)),
      negotiate =
        (\<lambda>hs content.
           if map_of hs ''Range'' = Some ''bytes=0-4'' then PartialContent None (take 5 content)
           else Whole),
      dirNotModified = (\<lambda>hs. False)\<rparr>"

definition world0 :: world where
  "world0 =
     \<lparr>fs_root =
        Dir [(''srv'',
              Dir [(''uploads'',
                    Dir [(''b.txt'', File ''hello world''),
                         (''sub'', Dir [(''c.bin'', File ''xyz'')]),
                         (''.pdf'', File ''0123456789'')]),
                   (''log.txt'', File ''old.txt\<newline>'')])],
      cwd = [''srv''], console = []\<rparr>"


definition get :: "string \<Rightarrow> request" where
  "get p = \<lparr>Method = ''GET'', URLPath = p, RawQuery = [], Header = [], FormFile = None\<rparr>"

definition post_file :: "string \<Rightarrow> string \<Rightarrow> request" where
  "post_file name content =
     \<lparr>Method = ''POST'', URLPath = ''/upload'', RawQuery = [], Header = [],
      FormFile = Some (name, content)\<rparr>"

section \<open>Properties\<close>

subsection \<open>What the format strings of the program print\<close>

lemmas fmt_defs = beyond_model_def printArg_def extraArgs_def missingArg_def

lemma Sprintf_index_format: "Sprintf index_format [a, b] = index_page a b"
  by (simp add: Sprintf_def index_format_def index_page_def index_part_1_def index_part_2_def
        index_part_3_def fmt_defs)

lemma Sprintf_upload_format: "Sprintf upload_format [a, b, c] = upload_page a b c"
  by (simp add: Sprintf_def upload_format_def upload_page_def upload_part_1_def upload_part_2_def
        upload_part_3_def upload_part_4_def fmt_defs)

lemma Sprintf_list_head_format: "Sprintf list_head_format [] = list_head_page"
  by (simp add: Sprintf_def list_head_format_def list_head_page_def list_part_1_def list_part_2_def
        list_part_3_def fmt_defs)

lemma Sprintf_list_foot_format: "Sprintf list_foot_format [] = list_foot_format"
  by (simp add: Sprintf_def list_foot_format_def fmt_defs)

lemma Sprintf_list_row_format:
  "Sprintf list_row_format [a, b] = ''<tr><td>'' @ a @ ''</td><td>'' @ b @ ''</td></tr>''"
  by (simp add: Sprintf_def list_row_format_def fmt_defs)

lemma Sprintf_fileURL: "Sprintf ''/file/%s'' [a] = ''/file/'' @ a"
  by (simp add: Sprintf_def fmt_defs)

lemma Sprintf_timestamp: "Sprintf '' [%s]'' [a] = '' ['' @ a @ '']''"
  by (simp add: Sprintf_def fmt_defs)

lemma Sprintf_line: "Sprintf ''%s\<newline>'' [a] = a @ ''\<newline>''"
  by (simp add: Sprintf_def fmt_defs)


subsection \<open>Responses\<close>

lemma Fprintf_simps [simp]:
  "status (Fprintf rw f a) = status rw" "headers (Fprintf rw f a) = headers rw"
  "body (Fprintf rw f a) = body rw @ Sprintf f a"
  by (simp_all add: Fprintf_def)

lemma http_Error_simps [simp]:
  "status (http_Error rw msg code) = code"
  "body (http_Error rw msg code) = body rw @ msg @ ''\<newline>''"
  by (simp_all add: http_Error_def)

lemma foldl_rows:
  "foldl (\<lambda>rw file. Fprintf rw list_row_format [ID file, Filename file]) rw0 files
     = rw0\<lparr>body := body rw0 @ list_rows files\<rparr>"
  by (induction files arbitrary: rw0)
     (simp_all add: list_rows_def Fprintf_def Sprintf_list_row_format)

lemma listHandler_ok:
  "Method r = ''GET'' \<Longrightarrow> getFileList w = Inr files \<Longrightarrow>
   listHandler config ev w r
     = Some (w, \<lparr>status = 200, headers = [], body = list_head_page @ list_rows files @ list_foot_format\<rparr>)"
  unfolding listHandler_def foldl_rows
  by (simp add: Fprintf_def Sprintf_list_head_format Sprintf_list_foot_format new_response_def)

lemma getFileList_world0:
  "getFileList world0 =
     Inr [\<lparr>ID = ''.pdf'', Filename = ''.pdf''\<rparr>, \<lparr>ID = ''b.txt'', Filename = ''b.txt''\<rparr>,
          \<lparr>ID = ''sub/c.bin'', Filename = ''c.bin''\<rparr>]"
  by code_simp

text \<open>\<open>Join\<close> is unfolded only where a proof asks for it.\<close>

declare Join.simps [simp del]

lemma set_header_simps [simp]:
  "status (set_header rw k v) = status rw" "body (set_header rw k v) = body rw"
  "headers (set_header rw k v) = Header_Set k v (headers rw)"
  by (simp_all add: set_header_def)




lemma serveContent_not_404 [simp]: "status (serveContent ev rw r c) \<noteq> 404"
  by (auto simp: serveContent_def writeNotModified_def split: served.splits)

lemma localRedirect_simps [simp]:
  "status (localRedirect rw r p) = 301" "body (localRedirect rw r p) = body rw"
  "headers (localRedirect rw r p)
     = Header_Set ''Location'' (if RawQuery r \<noteq> [] then p @ ''?'' @ RawQuery r else p) (headers rw)"
  by (simp_all add: localRedirect_def)










subsection \<open>The extension of a file name\<close>

lemma ext_scan_eq:
  "ext_scan l seen =
     (case dropWhile (\<lambda>c. c \<noteq> CHR ''.'' \<and> c \<noteq> CHR ''/'') l of
        [] \<Rightarrow> []
      | c # rest \<Rightarrow>
          if c = CHR ''/'' then []
          else c # rev (takeWhile (\<lambda>c. c \<noteq> CHR ''.'' \<and> c \<noteq> CHR ''/'') l) @ seen)"
proof (induction l arbitrary: seen)
  case Nil
  show ?case by simp
next
  case (Cons a l)
  consider "a = CHR ''/''" | "a = CHR ''.''" | "a \<noteq> CHR ''/''" "a \<noteq> CHR ''.''" by blast
  then show ?case
  proof cases
    case 1
    then show ?thesis by (simp add: IsPathSeparator_def)
  next
    case 2
    then show ?thesis by (simp add: IsPathSeparator_def)
  next
    case 3
    then show ?thesis
      by (simp add: IsPathSeparator_def Cons.IH cong: list.case_cong if_cong)
  qed
qed

lemma Ext_suffix: "\<exists>stem. f = stem @ Ext f"
proof -
  let ?P = "\<lambda>c. c \<noteq> CHR ''.'' \<and> c \<noteq> CHR ''/''"
  show ?thesis
  proof (cases "dropWhile ?P (rev f)")
    case Nil
    show ?thesis unfolding Ext_def ext_scan_eq Nil by simp
  next
    case (Cons c rest)
    show ?thesis
    proof (cases "c = CHR ''/''")
      case True
      show ?thesis unfolding Ext_def ext_scan_eq Cons using True by simp
    next
      case False
      have "f = rev (rev f)" by simp
      also have "\<dots> = rev (takeWhile ?P (rev f) @ c # rest)"
        using takeWhile_dropWhile_id [of ?P "rev f"] unfolding Cons by simp
      also have "\<dots> = rev rest @ c # rev (takeWhile ?P (rev f))" by simp
      finally have "f = rev rest @ c # rev (takeWhile ?P (rev f))" .
      moreover have "Ext f = c # rev (takeWhile ?P (rev f))"
        unfolding Ext_def ext_scan_eq Cons using False by simp
      ultimately have "f = rev rest @ Ext f" by simp
      then show ?thesis by blast
    qed
  qed
qed

lemma Ext_shape:
  "Ext f = [] \<or> (\<exists>e. Ext f = CHR ''.'' # e \<and> CHR ''.'' \<notin> set e \<and> CHR ''/'' \<notin> set e)"
proof -
  let ?P = "\<lambda>c. c \<noteq> CHR ''.'' \<and> c \<noteq> CHR ''/''"
  show ?thesis
  proof (cases "dropWhile ?P (rev f)")
    case Nil
    show ?thesis unfolding Ext_def ext_scan_eq Nil by simp
  next
    case (Cons c rest)
    have c: "\<not> ?P c"
      using Cons unfolding dropWhile_eq_Cons_conv by blast
    have tw: "?P x" if "x \<in> set (takeWhile ?P (rev f))" for x
      using set_takeWhileD [OF that] by blast
    show ?thesis
    proof (cases "c = CHR ''/''")
      case True
      show ?thesis unfolding Ext_def ext_scan_eq Cons using True by simp
    next
      case False
      then have "c = CHR ''.''" using c by blast
      moreover have "Ext f = c # rev (takeWhile ?P (rev f))"
        unfolding Ext_def ext_scan_eq Cons using False by simp
      ultimately have "Ext f = CHR ''.'' # rev (takeWhile ?P (rev f))" by simp
      moreover have "CHR ''.'' \<notin> set (rev (takeWhile ?P (rev f)))"
        using tw [of "CHR ''.''"] by auto
      moreover have "CHR ''/'' \<notin> set (rev (takeWhile ?P (rev f)))"
        using tw [of "CHR ''/''"] by auto
      ultimately show ?thesis by blast
    qed
  qed
qed

subsection \<open>Paths and the tree\<close>

lemma split_on_nosep: "\<forall>c\<in>set x. \<not> P c \<Longrightarrow> split_on P x = [x]"
  by (induction x) auto

lemma split_on_append:
  "\<forall>c\<in>set x. \<not> P c \<Longrightarrow> P s \<Longrightarrow> split_on P (x @ s # rest) = x # split_on P rest"
  by (induction x) auto

lemma split_sep_one: "CHR ''/'' \<notin> set e \<Longrightarrow> split_sep e = [e]"
  unfolding split_sep_def by (rule split_on_nosep) (auto simp: IsPathSeparator_def)

lemma split_sep_cons:
  "CHR ''/'' \<notin> set d \<Longrightarrow> split_sep (d @ CHR ''/'' # rest) = d # split_sep rest"
  unfolding split_sep_def by (rule split_on_append) (auto simp: IsPathSeparator_def)

lemma map_of_put_entry:
  "map_of (put_entry k v ents) k' = (if k' = k then Some v else map_of ents k')"
  by (induction ents) auto

lemma lookup_abs_append:
  "lookup_abs r (p @ q) = (case lookup_abs r p of Inl e \<Rightarrow> Inl e | Inr n \<Rightarrow> lookup_abs n q)"
proof (induction p arbitrary: r)
  case Nil
  show ?case by simp
next
  case (Cons e es)
  show ?case
  proof (cases r)
    case (File c)
    then show ?thesis by simp
  next
    case (Dir ents)
    then show ?thesis by (cases "map_of ents e") (simp_all add: Cons.IH)
  qed
qed

lemma put_node_one: "put_node [e] new (Dir ents) = Dir (put_entry e new ents)"
  by (cases "map_of ents e") simp_all

lemma put_node_append:
  "lookup_abs r p = Inr n \<Longrightarrow> put_node (p @ q) new r = put_node p (put_node q new n) r"
proof (induction p arbitrary: r)
  case Nil
  then show ?case by simp
next
  case (Cons e es)
  show ?case
  proof (cases r)
    case (File c)
    with Cons.prems show ?thesis by simp
  next
    case (Dir ents)
    show ?thesis
    proof (cases "map_of ents e")
      case None
      with Cons.prems Dir show ?thesis by simp
    next
      case (Some n')
      with Cons.prems Dir have "lookup_abs n' es = Inr n" by simp
      from Cons.IH [OF this] Dir Some show ?thesis by simp
    qed
  qed
qed

lemma lookup_put_node:
  "lookup_abs r p = Inr n \<Longrightarrow> lookup_abs (put_node p m r) p = Inr m"
proof (induction p arbitrary: r)
  case Nil
  then show ?case by simp
next
  case (Cons e es)
  show ?case
  proof (cases r)
    case (File c)
    with Cons.prems show ?thesis by simp
  next
    case (Dir ents)
    show ?thesis
    proof (cases "map_of ents e")
      case None
      with Cons.prems Dir show ?thesis by simp
    next
      case (Some n')
      with Cons.prems Dir have "lookup_abs n' es = Inr n" by simp
      from Cons.IH [OF this] Dir Some show ?thesis by (simp add: map_of_put_entry)
    qed
  qed
qed

text \<open>Replacing something below an existing directory \<open>p\<close>: what is then found at \<open>p\<close>.\<close>

lemma lookup_put_below:
  assumes "lookup_abs r p = Inr n"
  shows "lookup_abs (put_node (p @ q) m r) p = Inr (put_node q m n)"
  using assms by (simp add: put_node_append lookup_put_node)

lemma namei_plain:
  "list_all plain_name es \<Longrightarrow>
   (case namei r cur es of Inl x \<Rightarrow> Inl x | Inr p \<Rightarrow> lookup_abs r p) = lookup_abs r (cur @ es)"
proof (induction es arbitrary: cur)
  case Nil
  show ?case by simp
next
  case (Cons e es)
  then have pe: "plain_name e" and es: "list_all plain_name es" by simp_all
  from pe have e: "e \<noteq> []" "e \<noteq> ''.''" "e \<noteq> ''..''" by (simp_all add: plain_name_def)
  show ?case
  proof (cases "lookup_abs r cur")
    case (Inl x)
    then show ?thesis by (simp add: lookup_abs_append)
  next
    case (Inr n)
    show ?thesis
    proof (cases n)
      case (File c)
      with Inr show ?thesis by (simp add: lookup_abs_append)
    next
      case (Dir ents)
      show ?thesis
      proof (cases "map_of ents e")
        case None
        with Inr Dir e show ?thesis by (simp add: lookup_abs_append)
      next
        case (Some n')
        from Cons.IH [OF es, of "cur @ [e]"]
        have "(case namei r (cur @ [e]) es of Inl x \<Rightarrow> Inl x | Inr p \<Rightarrow> lookup_abs r p)
                = lookup_abs r (cur @ e # es)"
          by simp
        with Inr Dir Some e show ?thesis by simp
      qed
    qed
  qed
qed

lemma namei_plain_ok:
  "list_all plain_name es \<Longrightarrow> lookup_abs r (cur @ es) = Inr n \<Longrightarrow> namei r cur es = Inr (cur @ es)"
proof (induction es arbitrary: cur)
  case Nil
  show ?case by simp
next
  case (Cons e es)
  then have pe: "plain_name e" and es: "list_all plain_name es" by simp_all
  from pe have e: "e \<noteq> []" "e \<noteq> ''.''" "e \<noteq> ''..''" by (simp_all add: plain_name_def)
  from Cons.prems(2) have l: "lookup_abs r ((cur @ [e]) @ es) = Inr n" by simp
  from Cons.prems(2) obtain ents n' where "lookup_abs r cur = Inr (Dir ents)" "map_of ents e = Some n'"
    by (auto simp: lookup_abs_append split: sum.splits node.splits option.splits)
  with Cons.IH [OF es l] e show ?case by simp
qed

lemma join_sep_snoc: "es \<noteq> [] \<Longrightarrow> join_sep (es @ [e]) = join_sep es @ CHR ''/'' # e"
  by (induction es rule: join_sep.induct) simp_all

lemma split_sep_join:
  "es \<noteq> [] \<Longrightarrow> \<forall>e\<in>set es. CHR ''/'' \<notin> set e \<Longrightarrow> split_sep (join_sep es) = es"
  by (induction es rule: join_sep.induct) (simp_all add: split_sep_one split_sep_cons)

lemma join_sep_Nil_iff: "join_sep es = [] \<longleftrightarrow> es = [] \<or> es = [[]]"
  by (induction es rule: join_sep.induct) simp_all

lemma hd_join_sep: "es \<noteq> [] \<Longrightarrow> hd es \<noteq> [] \<Longrightarrow> hd (join_sep es) = hd (hd es)"
  by (induction es rule: join_sep.induct) simp_all

lemma set_join_sep: "set (join_sep es) \<subseteq> \<Union> (set ` set es) \<union> {CHR ''/''}"
  by (induction es rule: join_sep.induct) auto

lemma plain_nameD:
  assumes "plain_name e"
  shows "e \<noteq> []" "e \<noteq> ''.''" "e \<noteq> ''..''" "CHR ''/'' \<notin> set e" "CHR 0x00 \<notin> set e"
    "hd e \<noteq> CHR ''/''"
  using assms by (auto simp: plain_name_def dest: hd_in_set)

lemma clean_elems_plain:
  "list_all plain_name es \<Longrightarrow> clean_elems rooted out es = rev out @ es"
  by (induction es arbitrary: out) (simp_all add: plain_name_def)

lemma plain_path:
  assumes "list_all plain_name es" "es \<noteq> []"
  shows "join_sep es \<noteq> []" "\<not> IsPathSeparator (hd (join_sep es))"
    "CHR 0x00 \<notin> set (join_sep es)" "split_sep (join_sep es) = es"
proof -
  from assms have h: "plain_name (hd es)" by (cases es) simp_all
  from assms(1) have all: "\<forall>e\<in>set es. plain_name e" by (simp add: list_all_iff)
  from h assms(2) show "join_sep es \<noteq> []"
    by (auto simp: join_sep_Nil_iff dest: plain_nameD(1))
  from h assms(2) show "\<not> IsPathSeparator (hd (join_sep es))"
    by (simp add: hd_join_sep plain_nameD IsPathSeparator_def)
  from all show "CHR 0x00 \<notin> set (join_sep es)"
    using set_join_sep [of es] by (auto dest: plain_nameD(5))
  from all assms(2) show "split_sep (join_sep es) = es"
    by (intro split_sep_join) (auto dest: plain_nameD(4))
qed

lemma Clean_plain:
  assumes "list_all plain_name es" "es \<noteq> []"
  shows "Clean (join_sep es) = join_sep es"
  using assms plain_path [OF assms]
  by (simp add: Clean_def Let_def clean_elems_plain)

lemma Join_plain:
  assumes "list_all plain_name es" "es \<noteq> []" "plain_name e"
  shows "Join [join_sep es, e] = join_sep (es @ [e])"
proof -
  from assms have "list_all plain_name (es @ [e])" "es @ [e] \<noteq> []" by simp_all
  from Clean_plain [OF this] plain_path(1) [OF assms(1,2)] assms(2)
  show ?thesis by (simp add: Join.simps join_sep_snoc)
qed

lemma plain_uploads: "plain_name ''uploads''" "plain_name ''log.txt''"
  by (simp_all add: plain_name_def)

lemma Join_uploads:
  assumes "CHR ''/'' \<notin> set x"
  shows "Join [uploadsDir, x] =
           (if x = [] \<or> x = ''.'' then ''uploads''
            else if x = ''..'' then ''.'' else ''uploads/'' @ x)"
proof -
  have s: "split_sep (''uploads'' @ CHR ''/'' # x) = [''uploads'', x]"
    using split_sep_cons [of "''uploads''" x] split_sep_one [OF assms] by simp
  show ?thesis
    using s by (simp add: Join.simps uploadsDir_def Clean_def Let_def IsPathSeparator_def)
qed

lemma os_Stat_rel:
  assumes "list_all plain_name es" "es \<noteq> []"
  shows "os_Stat w (join_sep es) = lookup_abs (fs_root w) (cwd w @ es)"
  using plain_path [OF assms] namei_plain [OF assms(1), of "fs_root w" "cwd w"]
  by (simp add: os_Stat_def start_dir_def)

lemma os_OpenFile_rel:
  assumes "list_all plain_name es" "plain_name e"
    and "lookup_abs (fs_root w) (cwd w @ es) = Inr (Dir ents)"
  shows "os_OpenFile w (join_sep (es @ [e])) flag =
           (let h = \<lparr>h_path = cwd w @ es @ [e], h_append = (O_APPEND \<in> set flag)\<rparr>
            in case map_of ents e of
                 Some (Dir sub) \<Rightarrow> Inl EISDIR
               | Some (File c) \<Rightarrow>
                   if O_CREATE \<in> set flag \<and> O_EXCL \<in> set flag then Inl EEXIST
                   else if O_TRUNC \<in> set flag
                   then Inr (w\<lparr>fs_root := put_node (h_path h) (File []) (fs_root w)\<rparr>, h)
                   else Inr (w, h)
               | None \<Rightarrow>
                   if O_CREATE \<in> set flag
                   then Inr (w\<lparr>fs_root := put_node (h_path h) (File []) (fs_root w)\<rparr>, h)
                   else Inl ENOENT)"
proof -
  from assms have all: "list_all plain_name (es @ [e])" "es @ [e] \<noteq> []" by simp_all
  note pp = plain_path [OF all]
  have n: "namei (fs_root w) (cwd w) es = Inr (cwd w @ es)"
    by (rule namei_plain_ok [OF assms(1) assms(3)])
  show ?thesis
    using pp n assms(3) plain_nameD(1-3) [OF assms(2)]
    by (simp add: os_OpenFile_def start_dir_def Let_def)
qed

subsection \<open>Files in the directory of the process and in the storage directory\<close>

lemma Println_simps [simp]:
  "fs_root (Println w l) = fs_root w" "cwd (Println w l) = cwd w"
  "console (Println w l) = console w @ [l]"
  by (simp_all add: Println_def)

lemma os_Stat_Println [simp]: "os_Stat (Println w l) name = os_Stat w name"
  by (simp add: os_Stat_def start_dir_def cong: sum.case_cong)

lemma generateUUID_world:
  "fs_root (snd (generateUUID ev w)) = fs_root w" "cwd (snd (generateUUID ev w)) = cwd w"
  by (simp_all add: generateUUID_def split: sum.splits)

text \<open>The directory of the process, once something was put one or two names below it.\<close>

lemma put_one_below:
  assumes "lookup_abs r c = Inr (Dir cents)"
  shows "lookup_abs (put_node (c @ [k]) m r) c = Inr (Dir (put_entry k m cents))"
  using lookup_put_below [OF assms, of "[k]" m] unfolding put_node_one .

lemma put_two_below:
  assumes "lookup_abs r c = Inr (Dir cents)" "map_of cents d = Some (Dir ents)"
  shows "lookup_abs (put_node (c @ [d, e]) m r) c
           = Inr (Dir (put_entry d (Dir (put_entry e m ents)) cents))"
proof -
  have "put_node [d, e] m (Dir cents) = Dir (put_entry d (Dir (put_entry e m ents)) cents)"
    by (subst put_node.simps(2)) (simp add: assms(2) put_node_one del: put_node.simps)
  with lookup_put_below [OF assms(1), of "[d, e]" m] show ?thesis
    by (simp del: put_node.simps)
qed

lemma os_Stat_uploads:
  assumes "os_Stat w uploadsDir = Inr (Dir ents)"
  shows "\<exists>cents. lookup_abs (fs_root w) (cwd w) = Inr (Dir cents)
                \<and> map_of cents ''uploads'' = Some (Dir ents)"
proof -
  have "os_Stat w (join_sep [''uploads'']) = lookup_abs (fs_root w) (cwd w @ [''uploads''])"
    by (rule os_Stat_rel) (simp_all add: plain_uploads)
  with assms have "lookup_abs (fs_root w) (cwd w @ [''uploads'']) = Inr (Dir ents)"
    by (simp add: uploadsDir_def)
  then show ?thesis
    by (auto simp: lookup_abs_append split: sum.splits node.splits option.splits)
qed

text \<open>Opening a name in the directory of the process, or one directory below it.\<close>

lemma os_OpenFile_here:
  assumes "lookup_abs (fs_root w) (cwd w) = Inr (Dir cents)" "plain_name e"
  shows "os_OpenFile w e flag =
           (let h = \<lparr>h_path = cwd w @ [e], h_append = (O_APPEND \<in> set flag)\<rparr>
            in case map_of cents e of
                 Some (Dir sub) \<Rightarrow> Inl EISDIR
               | Some (File c) \<Rightarrow>
                   if O_CREATE \<in> set flag \<and> O_EXCL \<in> set flag then Inl EEXIST
                   else if O_TRUNC \<in> set flag
                   then Inr (w\<lparr>fs_root := put_node (h_path h) (File []) (fs_root w)\<rparr>, h)
                   else Inr (w, h)
               | None \<Rightarrow>
                   if O_CREATE \<in> set flag
                   then Inr (w\<lparr>fs_root := put_node (h_path h) (File []) (fs_root w)\<rparr>, h)
                   else Inl ENOENT)"
  using os_OpenFile_rel [of "[]" e w cents flag] assms by simp

lemma os_OpenFile_below:
  assumes "lookup_abs (fs_root w) (cwd w) = Inr (Dir cents)" "map_of cents d = Some (Dir ents)"
    "plain_name d" "plain_name e"
  shows "os_OpenFile w (d @ CHR ''/'' # e) flag =
           (let h = \<lparr>h_path = cwd w @ [d, e], h_append = (O_APPEND \<in> set flag)\<rparr>
            in case map_of ents e of
                 Some (Dir sub) \<Rightarrow> Inl EISDIR
               | Some (File c) \<Rightarrow>
                   if O_CREATE \<in> set flag \<and> O_EXCL \<in> set flag then Inl EEXIST
                   else if O_TRUNC \<in> set flag
                   then Inr (w\<lparr>fs_root := put_node (h_path h) (File []) (fs_root w)\<rparr>, h)
                   else Inr (w, h)
               | None \<Rightarrow>
                   if O_CREATE \<in> set flag
                   then Inr (w\<lparr>fs_root := put_node (h_path h) (File []) (fs_root w)\<rparr>, h)
                   else Inl ENOENT)"
proof -
  have "lookup_abs (fs_root w) (cwd w @ [d]) = Inr (Dir ents)"
    using assms(1,2) by (simp add: lookup_abs_append)
  from os_OpenFile_rel [of "[d]" e w ents flag] this assms(3,4) show ?thesis by simp
qed

lemma os_OpenFile_directory:
  assumes "lookup_abs (fs_root w) (cwd w) = Inr (Dir cents)" "map_of cents ''uploads'' = Some (Dir ents)"
  shows "os_OpenFile w ''uploads'' flag = Inl EISDIR" "os_OpenFile w ''.'' flag = Inl EISDIR"
proof -
  show "os_OpenFile w ''uploads'' flag = Inl EISDIR"
    using os_OpenFile_here [OF assms(1) plain_uploads(1), of flag] assms(2) by simp
  have "split_sep ''.'' = [''.'']" by (simp add: split_sep_one)
  then show "os_OpenFile w ''.'' flag = Inl EISDIR"
    using assms(1) by (simp add: os_OpenFile_def start_dir_def IsPathSeparator_def)
qed

lemma file_Write_here:
  assumes "lookup_abs (fs_root w) (cwd w) = Inr (Dir cents)" "map_of cents k = Some (File old)"
  shows "cwd (file_Write w \<lparr>h_path = cwd w @ [k], h_append = a\<rparr> data) = cwd w"
    and "lookup_abs (fs_root (file_Write w \<lparr>h_path = cwd w @ [k], h_append = a\<rparr> data)) (cwd w)
           = Inr (Dir (put_entry k (File (if a then old @ data else data @ drop (length data) old)) cents))"
proof -
  have f: "lookup_abs (fs_root w) (cwd w @ [k]) = Inr (File old)"
    using assms by (simp add: lookup_abs_append)
  then show "cwd (file_Write w \<lparr>h_path = cwd w @ [k], h_append = a\<rparr> data) = cwd w"
    by (simp add: file_Write_def)
  from f put_one_below [OF assms(1)]
  show "lookup_abs (fs_root (file_Write w \<lparr>h_path = cwd w @ [k], h_append = a\<rparr> data)) (cwd w)
           = Inr (Dir (put_entry k (File (if a then old @ data else data @ drop (length data) old)) cents))"
    by (simp add: file_Write_def del: put_node.simps)
qed

lemma file_Write_below:
  assumes "lookup_abs (fs_root w) (cwd w) = Inr (Dir cents)" "map_of cents d = Some (Dir ents)"
    "map_of ents k = Some (File old)"
  shows "cwd (file_Write w \<lparr>h_path = cwd w @ [d, k], h_append = a\<rparr> data) = cwd w"
    and "lookup_abs (fs_root (file_Write w \<lparr>h_path = cwd w @ [d, k], h_append = a\<rparr> data)) (cwd w)
           = Inr (Dir (put_entry d
                        (Dir (put_entry k
                               (File (if a then old @ data else data @ drop (length data) old)) ents))
                        cents))"
proof -
  have f: "lookup_abs (fs_root w) (cwd w @ [d, k]) = Inr (File old)"
    using assms by (simp add: lookup_abs_append)
  then show "cwd (file_Write w \<lparr>h_path = cwd w @ [d, k], h_append = a\<rparr> data) = cwd w"
    by (simp add: file_Write_def)
  from f put_two_below [OF assms(1,2)]
  show "lookup_abs (fs_root (file_Write w \<lparr>h_path = cwd w @ [d, k], h_append = a\<rparr> data)) (cwd w)
           = Inr (Dir (put_entry d
                        (Dir (put_entry k
                               (File (if a then old @ data else data @ drop (length data) old)) ents))
                        cents))"
    by (simp add: file_Write_def del: put_node.simps)
qed

text \<open>
  What \<open>writeLog\<close> leaves in the directory of the process: every entry but
  \<open>log.txt\<close> is as before; when the write does not fail, a log that was absent
  or a regular file holds its old content followed by the line.
\<close>

lemma writeLog_run:
  assumes cw: "lookup_abs (fs_root w) (cwd w) = Inr (Dir cents)"
  shows "\<exists>cents'.
           cwd (writeLog ev w msg) = cwd w
         \<and> lookup_abs (fs_root (writeLog ev w msg)) (cwd w) = Inr (Dir cents')
         \<and> (\<forall>k. k \<noteq> ''log.txt'' \<longrightarrow> map_of cents' k = map_of cents k)
         \<and> (\<not> log_fault ev \<longrightarrow>
              (case map_of cents ''log.txt'' of
                 None \<Rightarrow> map_of cents' ''log.txt'' = Some (File (msg @ ''\<newline>''))
               | Some (File old) \<Rightarrow> map_of cents' ''log.txt'' = Some (File (old @ msg @ ''\<newline>''))
               | Some (Dir sub) \<Rightarrow> map_of cents' ''log.txt'' = Some (Dir sub)))"
proof -
  let ?flag = "[O_WRONLY, O_CREATE, O_APPEND]"
  let ?h = "\<lparr>h_path = cwd w @ [''log.txt''], h_append = True\<rparr>"
  note op = os_OpenFile_here [OF cw plain_uploads(2), of ?flag]
  show ?thesis
  proof (cases "map_of cents ''log.txt''")
    case None
    let ?w1 = "w\<lparr>fs_root := put_node (cwd w @ [''log.txt'']) (File []) (fs_root w)\<rparr>"
    let ?c1 = "put_entry ''log.txt'' (File []) cents"
    from op None have o: "os_OpenFile w logFileName ?flag = Inr (?w1, ?h)"
      by (simp add: logFileName_def)
    have cw1: "lookup_abs (fs_root ?w1) (cwd ?w1) = Inr (Dir ?c1)"
      using put_one_below [OF cw] by simp
    have m1: "map_of ?c1 ''log.txt'' = Some (File [])" by (simp add: map_of_put_entry)
    show ?thesis
    proof (cases "log_fault ev")
      case True
      with o cw1 None show ?thesis
        by (auto simp: writeLog_def logFileName_def map_of_put_entry)
    next
      case False
      from file_Write_here [OF cw1 m1, of True "msg @ ''\<newline>''"] o False None
      show ?thesis
        by (auto simp: writeLog_def Sprintf_line map_of_put_entry)
    qed
  next
    case (Some n)
    show ?thesis
    proof (cases n)
      case (Dir sub)
      with op Some have "os_OpenFile w logFileName ?flag = Inl EISDIR"
        by (simp add: logFileName_def)
      with cw Some Dir show ?thesis by (auto simp: writeLog_def)
    next
      case (File old)
      with op Some have o: "os_OpenFile w logFileName ?flag = Inr (w, ?h)"
        by (simp add: logFileName_def)
      show ?thesis
      proof (cases "log_fault ev")
        case True
        with o cw show ?thesis by (auto simp: writeLog_def)
      next
        case False
        from Some File have m: "map_of cents ''log.txt'' = Some (File old)" by simp
        from file_Write_here [OF cw m, of True "msg @ ''\<newline>''"] o False m
        show ?thesis
          by (auto simp: writeLog_def Sprintf_line map_of_put_entry)
      qed
    qed
  qed
qed

subsection \<open>What a successful upload does\<close>

lemma uploadHandler_ok:
  assumes "Method r = ''POST''" and "FormFile r = Some (f, content)"
    and "uploadHandler config ev w r = Some (w', rw)" and "status rw = 200"
    and "generateUUID ev w = (uuid, w1)"
  shows "\<exists>w2 h w3.
           os_OpenFile w1 (Join [uploadsDir, uuid @ Ext f]) [O_WRONLY, O_CREATE] = Inr (w2, h)
         \<and> io_Copy ev w2 h content = (w3, None)
         \<and> w' = writeLog ev w3
                  (if LogTimestamp config then f @ '' ['' @ time_Now ev @ '']'' else f)
         \<and> rw = Fprintf new_response upload_format
                  [CustomHTMLHead config, CustomHTMLBody config, ''/file/'' @ uuid @ Ext f]"
proof (cases "os_OpenFile w1 (Join [uploadsDir, uuid @ Ext f]) [O_WRONLY, O_CREATE]")
  case (Inl e)
  with assms have "status rw = 500" by (auto simp: uploadHandler_def)
  with assms show ?thesis by simp
next
  case (Inr p)
  obtain w2 h where p: "p = (w2, h)" by (cases p)
  obtain w3 res where c: "io_Copy ev w2 h content = (w3, res)" by (cases "io_Copy ev w2 h content")
  show ?thesis
  proof (cases res)
    case (Some e)
    with assms Inr p c have "status rw = 500" by (auto simp: uploadHandler_def)
    with assms show ?thesis by simp
  next
    case None
    with assms Inr p c show ?thesis
      by (auto simp: uploadHandler_def Let_def Sprintf_fileURL Sprintf_timestamp)
  qed
qed

lemma os_OpenFile_upload:
  assumes "lookup_abs (fs_root w) (cwd w) = Inr (Dir cents)"
    "map_of cents ''uploads'' = Some (Dir ents)" "plain_name e"
  shows "os_OpenFile w (''uploads/'' @ e) [O_WRONLY, O_CREATE] =
           (case map_of ents e of
              Some (Dir sub) \<Rightarrow> Inl EISDIR
            | Some (File c) \<Rightarrow> Inr (w, \<lparr>h_path = cwd w @ [''uploads'', e], h_append = False\<rparr>)
            | None \<Rightarrow>
                Inr (w\<lparr>fs_root := put_node (cwd w @ [''uploads'', e]) (File []) (fs_root w)\<rparr>,
                     \<lparr>h_path = cwd w @ [''uploads'', e], h_append = False\<rparr>))"
  using os_OpenFile_below [OF assms(1,2) plain_uploads(1) assms(3), of "[O_WRONLY, O_CREATE]"]
  by (auto simp: Let_def split: option.splits node.splits)

lemma upload_run:
  assumes post: "Method r = ''POST''" and ff: "FormFile r = Some (f, content)"
    and st: "os_Stat w uploadsDir = Inr (Dir ents)"
    and ns: "CHR ''/'' \<notin> set (fst (generateUUID ev w))"
    and run: "uploadHandler config ev w r = Some (w', rw)" and ok: "status rw = 200"
  shows "\<exists>cents cents3 ents3 old w3.
           plain_name (fst (generateUUID ev w) @ Ext f)
         \<and> lookup_abs (fs_root w) (cwd w) = Inr (Dir cents)
         \<and> map_of cents ''uploads'' = Some (Dir ents)
         \<and> (map_of ents (fst (generateUUID ev w) @ Ext f) = None \<and> old = []
              \<or> map_of ents (fst (generateUUID ev w) @ Ext f) = Some (File old))
         \<and> copy_fault ev = None
         \<and> cwd w3 = cwd w
         \<and> lookup_abs (fs_root w3) (cwd w) = Inr (Dir cents3)
         \<and> (\<forall>k. k \<noteq> ''uploads'' \<longrightarrow> map_of cents3 k = map_of cents k)
         \<and> map_of cents3 ''uploads'' = Some (Dir ents3)
         \<and> map_of ents3 (fst (generateUUID ev w) @ Ext f)
             = Some (File (content @ drop (length content) old))
         \<and> w' = writeLog ev w3
                  (if LogTimestamp config then f @ '' ['' @ time_Now ev @ '']'' else f)
         \<and> rw = Fprintf new_response upload_format
                  [CustomHTMLHead config, CustomHTMLBody config,
                   ''/file/'' @ fst (generateUUID ev w) @ Ext f]"
proof -
  obtain uuid w1 where g: "generateUUID ev w = (uuid, w1)" by (cases "generateUUID ev w")
  define fid where "fid = uuid @ Ext f"
  let ?flag = "[O_WRONLY, O_CREATE]"
  from generateUUID_world [of ev w] g have w1: "fs_root w1 = fs_root w" "cwd w1 = cwd w"
    by simp_all
  from os_Stat_uploads [OF st] obtain cents
    where cw: "lookup_abs (fs_root w) (cwd w) = Inr (Dir cents)"
      and up: "map_of cents ''uploads'' = Some (Dir ents)"
    by blast
  from cw up w1 have cw1: "lookup_abs (fs_root w1) (cwd w1) = Inr (Dir cents)" by simp
  from uploadHandler_ok [OF post ff run ok g] obtain w2 h w3
    where op: "os_OpenFile w1 (Join [uploadsDir, fid]) ?flag = Inr (w2, h)"
      and cp: "io_Copy ev w2 h content = (w3, None)"
      and w': "w' = writeLog ev w3
                 (if LogTimestamp config then f @ '' ['' @ time_Now ev @ '']'' else f)"
      and rw: "rw = Fprintf new_response upload_format
                 [CustomHTMLHead config, CustomHTMLBody config, ''/file/'' @ fid]"
    unfolding fid_def by blast
  from ns g Ext_shape [of f] have nosep: "CHR ''/'' \<notin> set fid" unfolding fid_def by auto
  note j = Join_uploads [OF nosep]
  have id1: "fid \<noteq> []"
  proof
    assume "fid = []"
    with j have "Join [uploadsDir, fid] = ''uploads''" by simp
    with op os_OpenFile_directory(1) [OF cw1 up, of ?flag] show False by simp
  qed
  have id2: "fid \<noteq> ''.''"
  proof
    assume "fid = ''.''"
    with j have "Join [uploadsDir, fid] = ''uploads''" by simp
    with op os_OpenFile_directory(1) [OF cw1 up, of ?flag] show False by simp
  qed
  have id3: "fid \<noteq> ''..''"
  proof
    assume "fid = ''..''"
    with j have "Join [uploadsDir, fid] = ''.''" by simp
    with op os_OpenFile_directory(2) [OF cw1 up, of ?flag] show False by simp
  qed
  from id1 id2 id3 j have path: "Join [uploadsDir, fid] = ''uploads/'' @ fid" by simp
  have nul: "CHR 0x00 \<notin> set fid"
  proof
    assume "CHR 0x00 \<in> set fid"
    then have "CHR 0x00 \<in> set (''uploads/'' @ fid)" by simp
    then have "os_OpenFile w1 (''uploads/'' @ fid) ?flag = Inl EINVAL"
      unfolding os_OpenFile_def by (simp only: if_True)
    with op path show False by simp
  qed
  from id1 id2 id3 nosep nul have plain: "plain_name fid" by (simp add: plain_name_def)
  let ?h = "\<lparr>h_path = cwd w @ [''uploads'', fid], h_append = False\<rparr>"
  from os_OpenFile_upload [OF cw1 up plain] op path w1
  have op': "(case map_of ents fid of
                Some (Dir sub) \<Rightarrow> Inl EISDIR
              | Some (File c) \<Rightarrow> Inr (w1, ?h)
              | None \<Rightarrow> Inr (w1\<lparr>fs_root := put_node (cwd w @ [''uploads'', fid]) (File []) (fs_root w)\<rparr>, ?h))
             = Inr (w2, h)"
    by (simp cong: option.case_cong node.case_cong)
  from cp have nofault: "copy_fault ev = None" and w3: "w3 = file_Write w2 h content"
    by (auto simp: io_Copy_def split: option.splits)
  have "\<exists>cents3 ents3 old.
           (map_of ents fid = None \<and> old = [] \<or> map_of ents fid = Some (File old))
         \<and> cwd w3 = cwd w
         \<and> lookup_abs (fs_root w3) (cwd w) = Inr (Dir cents3)
         \<and> (\<forall>k. k \<noteq> ''uploads'' \<longrightarrow> map_of cents3 k = map_of cents k)
         \<and> map_of cents3 ''uploads'' = Some (Dir ents3)
         \<and> map_of ents3 fid = Some (File (content @ drop (length content) old))"
  proof (cases "map_of ents fid")
    case None
    let ?ents2 = "put_entry fid (File []) ents"
    let ?cents2 = "put_entry ''uploads'' (Dir ?ents2) cents"
    from op' None have w2: "w2 = w1\<lparr>fs_root := put_node (cwd w @ [''uploads'', fid]) (File []) (fs_root w)\<rparr>"
      and h: "h = ?h" by simp_all
    from put_two_below [OF cw up, of fid "File []"] w2 w1
    have cw2: "lookup_abs (fs_root w2) (cwd w2) = Inr (Dir ?cents2)" by simp
    have up2: "map_of ?cents2 ''uploads'' = Some (Dir ?ents2)"
      and f2: "map_of ?ents2 fid = Some (File [])"
      by (simp_all add: map_of_put_entry)
    from w2 w1 have c2: "cwd w2 = cwd w" by simp
    from file_Write_below [OF cw2 up2 f2, of False content] w3 h c2
    have "cwd w3 = cwd w"
      and "lookup_abs (fs_root w3) (cwd w)
             = Inr (Dir (put_entry ''uploads'' (Dir (put_entry fid (File content) ?ents2)) ?cents2))"
      by simp_all
    with None show ?thesis
      by (intro exI [of _ "put_entry ''uploads'' (Dir (put_entry fid (File content) ?ents2)) ?cents2"]
                exI [of _ "put_entry fid (File content) ?ents2"] exI [of _ "[]"])
         (simp add: map_of_put_entry)
  next
    case (Some n)
    show ?thesis
    proof (cases n)
      case (Dir sub)
      with op' Some show ?thesis by simp
    next
      case (File old)
      with op' Some have w2: "w2 = w1" and h: "h = ?h" by simp_all
      from Some File have f1: "map_of ents fid = Some (File old)" by simp
      let ?new = "File (content @ drop (length content) old)"
      from file_Write_below [OF cw1 up f1, of False content] w3 h w2 w1
      have "cwd w3 = cwd w"
        and "lookup_abs (fs_root w3) (cwd w)
               = Inr (Dir (put_entry ''uploads'' (Dir (put_entry fid ?new ents)) cents))"
        by simp_all
      with f1 show ?thesis
        by (intro exI [of _ "put_entry ''uploads'' (Dir (put_entry fid ?new ents)) cents"]
                  exI [of _ "put_entry fid ?new ents"] exI [of _ old])
           (simp add: map_of_put_entry)
    qed
  qed
  with plain cw up nofault w' rw g show ?thesis
    unfolding fid_def by auto
qed

lemma os_Stat_here:
  assumes "lookup_abs (fs_root w) (cwd w) = Inr (Dir cents)" "plain_name e"
  shows "os_Stat w e = (case map_of cents e of None \<Rightarrow> Inl ENOENT | Some n \<Rightarrow> Inr n)"
  using os_Stat_rel [of "[e]" w] assms
  by (simp add: lookup_abs_append cong: option.case_cong split: option.splits)

lemma os_Stat_below:
  assumes "lookup_abs (fs_root w) (cwd w) = Inr (Dir cents)" "map_of cents d = Some (Dir ents)"
    "plain_name d" "plain_name e"
  shows "os_Stat w (d @ CHR ''/'' # e) = (case map_of ents e of None \<Rightarrow> Inl ENOENT | Some n \<Rightarrow> Inr n)"
  using os_Stat_rel [of "[d, e]" w] assms
  by (simp add: lookup_abs_append cong: option.case_cong split: option.splits)

lemma uploadHandler_log_fault:
  "map_option snd (uploadHandler config (ev\<lparr>log_fault := b\<rparr>) w r)
     = map_option snd (uploadHandler config ev w r)"
  by (auto simp: uploadHandler_def generateUUID_def io_Copy_def Let_def
        split: option.splits sum.splits prod.splits)

lemma upload_stored:
  assumes "Method r = ''POST''" and "FormFile r = Some (f, content)"
    and "os_Stat w uploadsDir = Inr (Dir ents)"
    and "CHR ''/'' \<notin> set (fst (generateUUID ev w))"
    and "uploadHandler config ev w r = Some (w', rw)" and "status rw = 200"
  shows "\<exists>old. (map_of ents (fst (generateUUID ev w) @ Ext f) = None \<and> old = []
                 \<or> map_of ents (fst (generateUUID ev w) @ Ext f) = Some (File old))
             \<and> os_Stat w' (''uploads/'' @ fst (generateUUID ev w) @ Ext f)
                 = Inr (File (content @ drop (length content) old))"
proof -
  define fid where "fid = fst (generateUUID ev w) @ Ext f"
  let ?msg = "if LogTimestamp config then f @ '' ['' @ time_Now ev @ '']'' else f"
  from upload_run [OF assms] obtain cents3 ents3 old w3
    where plain: "plain_name fid"
      and old: "map_of ents fid = None \<and> old = [] \<or> map_of ents fid = Some (File old)"
      and c3: "cwd w3 = cwd w"
      and cw3: "lookup_abs (fs_root w3) (cwd w) = Inr (Dir cents3)"
      and up3: "map_of cents3 ''uploads'' = Some (Dir ents3)"
      and f3: "map_of ents3 fid = Some (File (content @ drop (length content) old))"
      and w': "w' = writeLog ev w3 ?msg"
    unfolding fid_def by blast
  from cw3 c3 have cw3': "lookup_abs (fs_root w3) (cwd w3) = Inr (Dir cents3)" by simp
  from writeLog_run [OF cw3', of ev ?msg] w' c3 obtain cents'
    where c': "cwd w' = cwd w"
      and cw': "lookup_abs (fs_root w') (cwd w) = Inr (Dir cents')"
      and frame: "\<forall>k. k \<noteq> ''log.txt'' \<longrightarrow> map_of cents' k = map_of cents3 k"
    by auto
  from frame up3 have up': "map_of cents' ''uploads'' = Some (Dir ents3)" by simp
  from cw' c' have cw'': "lookup_abs (fs_root w') (cwd w') = Inr (Dir cents')" by simp
  from os_Stat_below [OF cw'' up' plain_uploads(1) plain] f3
  have "os_Stat w' (''uploads/'' @ fid) = Inr (File (content @ drop (length content) old))"
    by simp
  with old show ?thesis unfolding fid_def by blast
qed

lemma upload_succeeds:
  assumes post: "Method r = ''POST''" and ff: "FormFile r = Some (f, content)"
    and st: "os_Stat w uploadsDir = Inr (Dir ents)"
    and g: "generateUUID ev w = (uuid, w1)"
    and plain: "plain_name (uuid @ Ext f)"
    and nodir: "\<forall>sub. map_of ents (uuid @ Ext f) \<noteq> Some (Dir sub)"
    and nofault: "copy_fault ev = None"
  shows "\<exists>w'. uploadHandler config ev w r
           = Some (w', Fprintf new_response upload_format
                         [CustomHTMLHead config, CustomHTMLBody config, ''/file/'' @ uuid @ Ext f])"
proof -
  define fid where "fid = uuid @ Ext f"
  from generateUUID_world [of ev w] g have w1: "fs_root w1 = fs_root w" "cwd w1 = cwd w"
    by simp_all
  from os_Stat_uploads [OF st] obtain cents
    where cw: "lookup_abs (fs_root w) (cwd w) = Inr (Dir cents)"
      and up: "map_of cents ''uploads'' = Some (Dir ents)"
    by blast
  from cw w1 have cw1: "lookup_abs (fs_root w1) (cwd w1) = Inr (Dir cents)" by simp
  from plain have p: "plain_name fid" unfolding fid_def .
  from plain_nameD [OF p] Join_uploads [of fid]
  have path: "Join [uploadsDir, fid] = ''uploads/'' @ fid" by simp
  from nodir have nd: "\<forall>sub. map_of ents fid \<noteq> Some (Dir sub)" unfolding fid_def .
  have "\<exists>w2 h. os_OpenFile w1 (''uploads/'' @ fid) [O_WRONLY, O_CREATE] = Inr (w2, h)"
    unfolding os_OpenFile_upload [OF cw1 up p] using nd
    by (auto split: option.splits node.splits)
  then obtain w2 h
    where op: "os_OpenFile w1 (Join [uploadsDir, fid]) [O_WRONLY, O_CREATE] = Inr (w2, h)"
    using path by auto
  from nofault have cp: "io_Copy ev w2 h content = (file_Write w2 h content, None)"
    by (simp add: io_Copy_def)
  from post ff g op cp show ?thesis
    unfolding fid_def
    by (simp add: uploadHandler_def Let_def Sprintf_fileURL)
qed

subsection \<open>Walking the storage directory\<close>

declare rel_skip.simps [simp del]

lemma rel_skip_uploads: "rel_skip ''uploads'' (''uploads/'' @ x) = ([], x, False)"
  apply (subst rel_skip.simps)
  apply (simp add: elem_of_def IsPathSeparator_def)
  apply (subst rel_skip.simps)
  apply simp
  done

lemma Rel_uploads:
  assumes "list_all plain_name pre" "pre \<noteq> []"
  shows "Rel uploadsDir (join_sep (''uploads'' # pre)) = Inr (join_sep pre)"
proof -
  have all: "list_all plain_name (''uploads'' # pre)" using assms by (simp add: plain_uploads)
  have c1: "Clean ''uploads'' = ''uploads''"
    using Clean_plain [of "[''uploads'']"] by (simp add: plain_uploads)
  obtain x xs where pre: "pre = x # xs" using assms(2) by (cases pre) auto
  have j: "join_sep (''uploads'' # pre) = ''uploads/'' @ join_sep pre"
    by (simp add: pre)
  have c2: "Clean (''uploads/'' @ join_sep pre) = ''uploads/'' @ join_sep pre"
    using Clean_plain [OF all] unfolding j by simp
  have ne: "join_sep pre \<noteq> []" using plain_path(1) [OF assms] .
  show ?thesis
    unfolding Rel_def uploadsDir_def j c1 c2 using ne rel_skip_uploads [of "join_sep pre"]
    by (simp add: Let_def IsPathSeparator_def)
qed

lemma Base_join_sep:
  assumes "list_all plain_name pre" "pre \<noteq> []"
  shows "Base (join_sep pre) = last pre"
proof -
  from assms(2) obtain bs l where pre: "pre = bs @ [l]" by (metis append_butlast_last_id)
  with assms(1) have l: "plain_name l" by simp
  note ld = plain_nameD [OF l]
  have ne: "join_sep pre \<noteq> []" using plain_path(1) [OF assms] .
  have r: "\<exists>rest. rev (join_sep pre) = rev l @ rest \<and> (rest = [] \<or> hd rest = CHR ''/'')"
  proof (cases "bs = []")
    case True
    then show ?thesis by (simp add: pre)
  next
    case False
    then show ?thesis by (simp add: pre join_sep_snoc)
  qed
  then obtain rest where rest: "rev (join_sep pre) = rev l @ rest" "rest = [] \<or> hd rest = CHR ''/''"
    by blast
  have nosep: "\<forall>c\<in>set (rev l). \<not> IsPathSeparator c" using ld(4) by (auto simp: IsPathSeparator_def)
  have d: "dropWhile IsPathSeparator (rev l @ rest) = rev l @ rest"
    using ld(1) nosep by (cases "rev l") auto
  have t: "takeWhile (\<lambda>c. \<not> IsPathSeparator c) (rev l @ rest) = rev l"
  proof (cases rest)
    case Nil
    then show ?thesis using nosep by (simp add: takeWhile_eq_all_conv)
  next
    case (Cons c cs)
    with rest(2) have "IsPathSeparator c" by (simp add: IsPathSeparator_def)
    have "takeWhile (\<lambda>c. \<not> IsPathSeparator c) (rev l @ rest)
            = rev l @ takeWhile (\<lambda>c. \<not> IsPathSeparator c) rest"
      by (rule takeWhile_append2) (use nosep in auto)
    with Cons \<open>IsPathSeparator c\<close> show ?thesis by simp
  qed
  show ?thesis
    using ne ld(1) unfolding Base_def rest(1) by (simp add: Let_def d t pre)
qed

lemma join_sep_inj:
  assumes "list_all plain_name p" "list_all plain_name q" "p \<noteq> []" "q \<noteq> []"
    "join_sep p = join_sep q"
  shows "p = q"
proof -
  have "p = split_sep (join_sep p)" using plain_path(4) [OF assms(1,3)] by (rule sym)
  also have "\<dots> = split_sep (join_sep q)" by (simp only: assms(5))
  also have "\<dots> = q" by (rule plain_path(4) [OF assms(2,4)])
  finally show ?thesis .
qed

lemma wf_lookup:
  "wf_node n \<Longrightarrow> lookup_abs n p = Inr m \<Longrightarrow> list_all plain_name p \<and> wf_node m"
proof (induction p arbitrary: n)
  case Nil
  then show ?case by simp
next
  case (Cons e es)
  from Cons.prems(2) obtain ents n' where n: "n = Dir ents" and m: "map_of ents e = Some n'"
    and l: "lookup_abs n' es = Inr m"
    by (cases n) (auto split: option.splits)
  from m have "(e, n') \<in> set ents" by (rule map_of_SomeD)
  with Cons.prems(1) n have "plain_name e" "wf_node n'" by auto
  with Cons.IH [OF _ l] show ?case by simp
qed

lemma listFn_file:
  assumes "list_all plain_name pre" "pre \<noteq> []"
  shows "listFn (join_sep (''uploads'' # pre)) (Some (File c)) None acc
           = Inr (acc @ [\<lparr>ID = join_sep pre, Filename = Base (join_sep pre)\<rparr>])"
  by (simp add: listFn_def Rel_uploads [OF assms])

lemma listFn_dir: "listFn path (Some (Dir ents)) None acc = Inr acc"
  by (simp add: listFn_def)

lemma walk_names_ok:
  assumes pre: "list_all plain_name pre"
    and child: "\<And>k n acc. map_of ents k = Some n \<Longrightarrow>
        \<exists>ps. walk listFn (join_sep (''uploads'' # pre @ [k])) n acc
               = Inr (acc @ map (\<lambda>p. \<lparr>ID = join_sep (pre @ k # p),
                                       Filename = Base (join_sep (pre @ k # p))\<rparr>) ps)
           \<and> distinct ps \<and> set ps = {p. \<exists>c. lookup_abs n p = Inr (File c)}"
    and names: "distinct names" "\<forall>k\<in>set names. plain_name k \<and> map_of ents k \<noteq> None"
  shows "\<exists>qs. walk_names listFn (join_sep (''uploads'' # pre)) ents names acc
               = Inr (acc @ map (\<lambda>p. \<lparr>ID = join_sep (pre @ p),
                                       Filename = Base (join_sep (pre @ p))\<rparr>) qs)
           \<and> distinct qs
           \<and> set qs = {k # p | k p. k \<in> set names
                          \<and> (\<exists>n c. map_of ents k = Some n \<and> lookup_abs n p = Inr (File c))}"
  using names
proof (induction names arbitrary: acc)
  case Nil
  show ?case by (intro exI [of _ "[]"]) simp
next
  case (Cons name names)
  let ?entry = "\<lambda>p. \<lparr>ID = join_sep (pre @ p), Filename = Base (join_sep (pre @ p))\<rparr>"
  from Cons.prems have pn: "plain_name name" and notin: "name \<notin> set names"
    and dn: "distinct names" and rest: "\<forall>k\<in>set names. plain_name k \<and> map_of ents k \<noteq> None"
    by simp_all
  from Cons.prems obtain n where n: "map_of ents name = Some n" by auto
  have all: "list_all plain_name (''uploads'' # pre)" using pre by (simp add: plain_uploads)
  have fn: "Join [join_sep (''uploads'' # pre), name] = join_sep (''uploads'' # pre @ [name])"
    using Join_plain [OF all _ pn] by simp
  from child [OF n, of acc] obtain ps
    where w: "walk listFn (join_sep (''uploads'' # pre @ [name])) n acc
                = Inr (acc @ map (\<lambda>p. ?entry (name # p)) ps)"
      and dps: "distinct ps" and sps: "set ps = {p. \<exists>c. lookup_abs n p = Inr (File c)}"
    by blast
  from Cons.IH [OF dn rest, of "acc @ map (\<lambda>p. ?entry (name # p)) ps"] obtain qs
    where ws: "walk_names listFn (join_sep (''uploads'' # pre)) ents names
                 (acc @ map (\<lambda>p. ?entry (name # p)) ps)
                 = Inr ((acc @ map (\<lambda>p. ?entry (name # p)) ps) @ map ?entry qs)"
      and dqs: "distinct qs"
      and sqs: "set qs = {k # p | k p. k \<in> set names
                           \<and> (\<exists>n c. map_of ents k = Some n \<and> lookup_abs n p = Inr (File c))}"
    by blast
  let ?qs = "map ((#) name) ps @ qs"
  have run: "walk_names listFn (join_sep (''uploads'' # pre)) ents (name # names) acc
               = Inr (acc @ map ?entry ?qs)"
    by (simp add: fn n w ws Let_def comp_def)
  have dist: "distinct ?qs"
    using dps dqs sqs notin by (auto simp: distinct_map inj_on_def)
  have sets: "set ?qs = {k # p | k p. k \<in> set (name # names)
                           \<and> (\<exists>n c. map_of ents k = Some n \<and> lookup_abs n p = Inr (File c))}"
    using sps sqs n by auto
  from run dist sets show ?case by blast
qed

lemma walk_ok:
  "wf_node n \<Longrightarrow> list_all plain_name pre \<Longrightarrow> (\<forall>c. n = File c \<longrightarrow> pre \<noteq> []) \<Longrightarrow>
   \<exists>ps. walk listFn (join_sep (''uploads'' # pre)) n acc
          = Inr (acc @ map (\<lambda>p. \<lparr>ID = join_sep (pre @ p),
                                  Filename = Base (join_sep (pre @ p))\<rparr>) ps)
      \<and> distinct ps \<and> set ps = {p. \<exists>c. lookup_abs n p = Inr (File c)}"
proof (induction n arbitrary: pre acc)
  case (File c)
  then have "pre \<noteq> []" by simp
  from listFn_file [OF File.prems(2) this, of c acc] show ?case
    by (intro exI [of _ "[[]]"]) (auto elim: lookup_abs.elims)
next
  case (Dir ents)
  let ?names = "sort (map fst ents)"
  from Dir.prems(1) have dist: "distinct (map fst ents)"
    and wf: "\<And>k n. (k, n) \<in> set ents \<Longrightarrow> plain_name k \<and> wf_node n"
    by auto
  have child: "\<exists>ps. walk listFn (join_sep (''uploads'' # pre @ [k])) n acc
               = Inr (acc @ map (\<lambda>p. \<lparr>ID = join_sep (pre @ k # p),
                                       Filename = Base (join_sep (pre @ k # p))\<rparr>) ps)
           \<and> distinct ps \<and> set ps = {p. \<exists>c. lookup_abs n p = Inr (File c)}"
    if "map_of ents k = Some n" for k n acc
  proof -
    from that have mem: "(k, n) \<in> set ents" by (rule map_of_SomeD)
    with wf have "plain_name k" "wf_node n" by auto
    with Dir.prems(2) have p: "list_all plain_name (pre @ [k])" by simp
    from Dir.IH [of "(k, n)" n "pre @ [k]" acc] mem \<open>wf_node n\<close> p show ?thesis by simp
  qed
  have names: "distinct ?names" "\<forall>k\<in>set ?names. plain_name k \<and> map_of ents k \<noteq> None"
    using dist wf by (auto simp: map_of_eq_None_iff)
  from walk_names_ok [OF Dir.prems(2) child names, of acc] obtain qs
    where run: "walk_names listFn (join_sep (''uploads'' # pre)) ents ?names acc
               = Inr (acc @ map (\<lambda>p. \<lparr>ID = join_sep (pre @ p),
                                       Filename = Base (join_sep (pre @ p))\<rparr>) qs)"
      and dqs: "distinct qs"
      and sqs: "set qs = {k # p | k p. k \<in> set ?names
                           \<and> (\<exists>n c. map_of ents k = Some n \<and> lookup_abs n p = Inr (File c))}"
    by blast
  have "set qs = {p. \<exists>c. lookup_abs (Dir ents) p = Inr (File c)}"
  proof (intro set_eqI iffI)
    fix p assume "p \<in> set qs"
    with sqs show "p \<in> {p. \<exists>c. lookup_abs (Dir ents) p = Inr (File c)}" by auto
  next
    fix p assume "p \<in> {p. \<exists>c. lookup_abs (Dir ents) p = Inr (File c)}"
    then obtain c where l: "lookup_abs (Dir ents) p = Inr (File c)" by blast
    then obtain k p' where p: "p = k # p'" by (cases p) auto
    with l obtain n where "map_of ents k = Some n" "lookup_abs n p' = Inr (File c)"
      by (auto split: option.splits)
    moreover from this have "k \<in> set ?names" by (auto dest: map_of_SomeD intro: rev_image_eqI)
    ultimately show "p \<in> set qs" using sqs p by blast
  qed
  with run dqs show ?case by (auto simp: listFn_dir)
qed

subsection \<open>Methods other than the one a route allows\<close>

text \<open>
  C4. Each of the four handlers answers a request whose method is not the one
  it serves (GET for \<open>/\<close>, POST for \<open>/upload\<close>, GET for \<open>/list\<close>, GET for
  \<open>/file/\<close>) with the reply of \<open>http.NotFound\<close>, whose status is 404 (and not 405),
  and leaves the state as it is.
\<close>

theorem other_method_not_found:
  "(Method r \<noteq> ''GET'' \<longrightarrow> indexHandler config ev w r = Some (w, http_NotFound new_response))
   \<and> (Method r \<noteq> ''POST'' \<longrightarrow> uploadHandler config ev w r = Some (w, http_NotFound new_response))
   \<and> (Method r \<noteq> ''GET'' \<longrightarrow> listHandler config ev w r = Some (w, http_NotFound new_response))
   \<and> (Method r \<noteq> ''GET'' \<longrightarrow> fileHandler config ev w r = Some (w, http_NotFound new_response))
   \<and> status (http_NotFound new_response) = 404
   \<and> body (http_NotFound new_response) = ''404 page not found\<newline>''"
  by (simp add: indexHandler_def uploadHandler_def listHandler_def fileHandler_def
        http_NotFound_def http_Error_def new_response_def set_header_def)

theorem other_method_not_found_witness:
  "uploadHandler config0 env0 world0 \<lparr>Method = ''PUT'', URLPath = ''/upload'', RawQuery = [], Header = [], FormFile = None\<rparr>
     = Some (world0, http_NotFound new_response)
   \<and> listHandler config0 env0 world0 \<lparr>Method = ''DELETE'', URLPath = ''/list'', RawQuery = [], Header = [], FormFile = None\<rparr>
     = Some (world0, http_NotFound new_response)
   \<and> status (http_NotFound new_response) = 404"
  using other_method_not_found
    [of "\<lparr>Method = ''PUT'', URLPath = ''/upload'', RawQuery = [], Header = [], FormFile = None\<rparr>" config0 env0 world0]
    other_method_not_found
    [of "\<lparr>Method = ''DELETE'', URLPath = ''/list'', RawQuery = [], Header = [], FormFile = None\<rparr>" config0 env0 world0]
  by simp

subsection \<open>The unused configuration field\<close>

text \<open>
  C9. No handler reads \<open>EnableXSSProtection\<close>: for every request, environment and
  state, each of the four handlers returns the same state and the same response
  whatever the value of the field.
\<close>

theorem xss_flag_not_consulted:
  "indexHandler (config\<lparr>EnableXSSProtection := b\<rparr>) ev w r = indexHandler config ev w r
   \<and> uploadHandler (config\<lparr>EnableXSSProtection := b\<rparr>) ev w r = uploadHandler config ev w r
   \<and> listHandler (config\<lparr>EnableXSSProtection := b\<rparr>) ev w r = listHandler config ev w r
   \<and> fileHandler (config\<lparr>EnableXSSProtection := b\<rparr>) ev w r = fileHandler config ev w r"
  by (simp add: indexHandler_def uploadHandler_def listHandler_def fileHandler_def
        cong: option.case_cong sum.case_cong prod.case_cong if_cong)

subsection \<open>The list page and the configured fragments\<close>

text \<open>
  C10. The first \<open>Fprintf\<close> of \<open>listHandler\<close> has a format with two verbs \<open>%s\<close> and
  no operands. So the response to \<open>GET /list\<close> does not depend on the configured
  HTML fragments: two runs that differ only in \<open>CustomHTMLHead\<close> and
  \<open>CustomHTMLBody\<close> give the same result. The head of the page is the constant
  that the format prints without operands, in which \<open>%!s(MISSING)\<close> stands at the
  two places meant for the fragments (and \<open>%!;(MISSING)\<close> in the style sheet,
  inside \<open>list_part_2\<close>); it is followed by the rows and the foot of the page.
\<close>

theorem list_page_ignores_fragments:
  "listHandler (config\<lparr>CustomHTMLHead := h, CustomHTMLBody := b\<rparr>) ev w r = listHandler config ev w r
   \<and> Sprintf list_head_format []
       = list_part_1 @ ''%!s(MISSING)'' @ list_part_2 @ ''%!s(MISSING)'' @ list_part_3
   \<and> (Method r = ''GET'' \<longrightarrow> getFileList w = Inr files \<longrightarrow>
        listHandler config ev w r
          = Some (w, \<lparr>status = 200, headers = [],
                       body = Sprintf list_head_format [] @ list_rows files @ list_foot_format\<rparr>))"
proof -
  have "listHandler (config\<lparr>CustomHTMLHead := h, CustomHTMLBody := b\<rparr>) ev w r
          = listHandler config ev w r"
    by (simp add: listHandler_def)
  moreover have "Sprintf list_head_format []
      = list_part_1 @ ''%!s(MISSING)'' @ list_part_2 @ ''%!s(MISSING)'' @ list_part_3"
    by (simp add: Sprintf_list_head_format list_head_page_def)
  moreover have "listHandler config ev w r
      = Some (w, \<lparr>status = 200, headers = [],
                   body = Sprintf list_head_format [] @ list_rows files @ list_foot_format\<rparr>)"
    if "Method r = ''GET''" "getFileList w = Inr files"
    using listHandler_ok [OF that] by (simp add: Sprintf_list_head_format)
  ultimately show ?thesis by blast
qed

theorem list_page_ignores_fragments_witness:
  "listHandler (config0\<lparr>CustomHTMLHead := ''<script>'', CustomHTMLBody := ''<b>''\<rparr>) env0 world0 (get ''/list'')
     = listHandler config0 env0 world0 (get ''/list'')
   \<and> listHandler config0 env0 world0 (get ''/list'')
     = Some (world0,
         \<lparr>status = 200, headers = [],
          body = list_part_1 @ ''%!s(MISSING)'' @ list_part_2 @ ''%!s(MISSING)'' @ list_part_3
                 @ list_rows [\<lparr>ID = ''.pdf'', Filename = ''.pdf''\<rparr>,
                              \<lparr>ID = ''b.txt'', Filename = ''b.txt''\<rparr>,
                              \<lparr>ID = ''sub/c.bin'', Filename = ''c.bin''\<rparr>]
                 @ list_foot_format\<rparr>)"
  using list_page_ignores_fragments
    [where config = config0 and h = "''<script>''" and b = "''<b>''" and ev = env0
       and w = world0 and r = "get ''/list''"
       and files = "[\<lparr>ID = ''.pdf'', Filename = ''.pdf''\<rparr>, \<lparr>ID = ''b.txt'', Filename = ''b.txt''\<rparr>,
          \<lparr>ID = ''sub/c.bin'', Filename = ''c.bin''\<rparr>]"]
    getFileList_world0
  by (simp add: get_def)

subsection \<open>The identifier of an upload\<close>

text \<open>
  C1. When \<open>POST /upload\<close> with a file named \<open>f\<close> succeeds (status 200), the
  identifier is the string \<open>generateUUID\<close> returned followed by the extension of
  \<open>f\<close>: the file was opened under that name in the storage directory, and the
  page links to \<open>/file/\<close> followed by it. The extension is a suffix of \<open>f\<close> that
  is empty or starts at a dot and has no other dot and no separator; for
  \<open>report.final.pdf\<close> it is \<open>.pdf\<close>.
\<close>

theorem upload_identifier:
  assumes "Method r = ''POST''" and "FormFile r = Some (f, content)"
    and "uploadHandler config ev w r = Some (w', rw)" and "status rw = 200"
  shows "\<exists>uuid w1 w2 h.
           generateUUID ev w = (uuid, w1)
         \<and> os_OpenFile w1 (Join [uploadsDir, uuid @ Ext f]) [O_WRONLY, O_CREATE] = Inr (w2, h)
         \<and> body rw = upload_part_1 @ CustomHTMLHead config @ upload_part_2 @ CustomHTMLBody config
                      @ upload_part_3 @ ''/file/'' @ uuid @ Ext f @ upload_part_4
         \<and> (\<exists>stem. f = stem @ Ext f)
         \<and> (Ext f = [] \<or> (\<exists>e. Ext f = CHR ''.'' # e \<and> CHR ''.'' \<notin> set e \<and> CHR ''/'' \<notin> set e))
         \<and> Ext ''report.final.pdf'' = ''.pdf''"
proof -
  obtain uuid w1 where g: "generateUUID ev w = (uuid, w1)" by (cases "generateUUID ev w")
  let ?path = "Join [uploadsDir, uuid @ Ext f]"
  show ?thesis
  proof (cases "os_OpenFile w1 ?path [O_WRONLY, O_CREATE]")
    case (Inl e)
    with assms g have "status rw = 500"
      by (auto simp: uploadHandler_def)
    with assms show ?thesis by simp
  next
    case (Inr p)
    obtain w2 h where p: "p = (w2, h)" by (cases p)
    obtain w3 res where c: "io_Copy ev w2 h content = (w3, res)" by (cases "io_Copy ev w2 h content")
    show ?thesis
    proof (cases res)
      case (Some e)
      with assms g Inr p c have "status rw = 500"
        by (auto simp: uploadHandler_def)
      with assms show ?thesis by simp
    next
      case None
      with assms g Inr p c
      have "body rw = upload_page (CustomHTMLHead config) (CustomHTMLBody config)
                        (''/file/'' @ uuid @ Ext f)"
        by (auto simp: uploadHandler_def Let_def Sprintf_upload_format Sprintf_fileURL
              new_response_def)
      then show ?thesis
        using g Inr p Ext_suffix [of f] Ext_shape [of f]
        by (simp add: upload_page_def Ext_def IsPathSeparator_def)
    qed
  qed
qed

theorem upload_identifier_witness:
  "\<exists>w' rw w1 w2 h.
      uploadHandler config0 env0 world0 (post_file ''report.final.pdf'' ''%PDF-1.4'') = Some (w', rw)
    \<and> status rw = 200
    \<and> generateUUID env0 world0 = (''123e4567-e89b-42d3-a456-426614174000'', w1)
    \<and> os_OpenFile w1 (Join [uploadsDir, ''123e4567-e89b-42d3-a456-426614174000'' @ ''.pdf''])
         [O_WRONLY, O_CREATE] = Inr (w2, h)
    \<and> body rw = upload_part_1 @ CustomHTMLHead config0 @ upload_part_2 @ CustomHTMLBody config0
                 @ upload_part_3 @ ''/file/'' @ ''123e4567-e89b-42d3-a456-426614174000'' @ ''.pdf''
                 @ upload_part_4"
proof -
  let ?r = "post_file ''report.final.pdf'' ''%PDF-1.4''"
  have "map_option (status \<circ> snd) (uploadHandler config0 env0 world0 ?r) = Some 200"
    by code_simp
  then obtain w' rw where run: "uploadHandler config0 env0 world0 ?r = Some (w', rw)"
    and ok: "status rw = 200"
    by (cases "uploadHandler config0 env0 world0 ?r") auto
  have g: "generateUUID env0 world0 = (''123e4567-e89b-42d3-a456-426614174000'', world0)"
    by (simp add: generateUUID_def env0_def)
  have m: "Method ?r = ''POST''" and ff: "FormFile ?r = Some (''report.final.pdf'', ''%PDF-1.4'')"
    by (simp_all add: post_file_def)
  from upload_identifier [OF m ff run ok] g run ok show ?thesis
    by (auto simp: Ext_def IsPathSeparator_def)
qed

subsection \<open>Retrieval: not found, or served\<close>








subsection \<open>The header fields of a served file\<close>



subsection \<open>The log line of an upload\<close>

text \<open>
  C8 (as amended). A completed upload (status 200) into an existing storage
  directory, with an identifier string without separator (the canonical form of
  a UUID has none), appends to \<open>log.txt\<close>, unless the write fails, the original
  file name, followed by the time in brackets when \<open>LogTimestamp\<close> is set, and a
  line break: a log that was absent then holds just this text, a log that was a
  regular file holds its old content followed by it. When the file name has no
  line break, and the formatted time has none when it is logged, the text before
  the final line break has none, so that exactly one line is appended. Whether the write to the log
  fails or not, the response is the same.
\<close>

theorem upload_log_line:
  assumes "Method r = ''POST''" and "FormFile r = Some (f, content)"
    and "os_Stat w uploadsDir = Inr (Dir ents)"
    and "CHR ''/'' \<notin> set (fst (generateUUID ev w))"
    and "uploadHandler config ev w r = Some (w', rw)" and "status rw = 200"
  shows
    "(\<not> log_fault ev \<longrightarrow>
        (os_Stat w logFileName = Inl ENOENT \<longrightarrow>
           os_Stat w' logFileName
             = Inr (File ((if LogTimestamp config then f @ '' ['' @ time_Now ev @ '']'' else f)
                          @ ''\<newline>'')))
      \<and> (\<forall>old. os_Stat w logFileName = Inr (File old) \<longrightarrow>
           os_Stat w' logFileName
             = Inr (File (old @ (if LogTimestamp config then f @ '' ['' @ time_Now ev @ '']'' else f)
                          @ ''\<newline>''))))
     \<and> (CHR ''\<newline>'' \<notin> set f
          \<and> (LogTimestamp config \<longrightarrow> CHR ''\<newline>'' \<notin> set (time_Now ev))
        \<longrightarrow> CHR ''\<newline>''
              \<notin> set (if LogTimestamp config then f @ '' ['' @ time_Now ev @ '']'' else f))
     \<and> (\<forall>b. map_option snd (uploadHandler config (ev\<lparr>log_fault := b\<rparr>) w r) = Some rw)"
proof -
  let ?msg = "if LogTimestamp config then f @ '' ['' @ time_Now ev @ '']'' else f"
  from upload_run [OF assms] obtain cents cents3 w3
    where cw: "lookup_abs (fs_root w) (cwd w) = Inr (Dir cents)"
      and c3: "cwd w3 = cwd w"
      and cw3: "lookup_abs (fs_root w3) (cwd w) = Inr (Dir cents3)"
      and frame: "\<forall>k. k \<noteq> ''uploads'' \<longrightarrow> map_of cents3 k = map_of cents k"
      and w': "w' = writeLog ev w3 ?msg"
    by blast
  from frame have l3: "map_of cents3 ''log.txt'' = map_of cents ''log.txt''" by simp
  from cw3 c3 have cw3': "lookup_abs (fs_root w3) (cwd w3) = Inr (Dir cents3)" by simp
  from writeLog_run [OF cw3', of ev ?msg] w' c3 obtain cents'
    where c': "cwd w' = cwd w"
      and cw': "lookup_abs (fs_root w') (cwd w) = Inr (Dir cents')"
      and logged: "\<not> log_fault ev \<longrightarrow>
              (case map_of cents3 ''log.txt'' of
                 None \<Rightarrow> map_of cents' ''log.txt'' = Some (File (?msg @ ''\<newline>''))
               | Some (File old) \<Rightarrow> map_of cents' ''log.txt'' = Some (File (old @ ?msg @ ''\<newline>''))
               | Some (Dir sub) \<Rightarrow> map_of cents' ''log.txt'' = Some (Dir sub))"
    by auto
  from cw' c' have cw'': "lookup_abs (fs_root w') (cwd w') = Inr (Dir cents')" by simp
  note before = os_Stat_here [OF cw plain_uploads(2)]
  note after = os_Stat_here [OF cw'' plain_uploads(2)]
  have a: "os_Stat w' logFileName = Inr (File (?msg @ ''\<newline>''))"
    if "\<not> log_fault ev" "os_Stat w logFileName = Inl ENOENT"
  proof -
    from that(2) before have "map_of cents ''log.txt'' = None"
      by (simp add: logFileName_def split: option.splits)
    with logged that(1) l3 have "map_of cents' ''log.txt'' = Some (File (?msg @ ''\<newline>''))"
      by simp
    with after show ?thesis by (simp add: logFileName_def)
  qed
  have b: "os_Stat w' logFileName = Inr (File (old @ ?msg @ ''\<newline>''))"
    if "\<not> log_fault ev" "os_Stat w logFileName = Inr (File old)" for old
  proof -
    from that(2) before have "map_of cents ''log.txt'' = Some (File old)"
      by (simp add: logFileName_def split: option.splits)
    with logged that(1) l3 have "map_of cents' ''log.txt'' = Some (File (old @ ?msg @ ''\<newline>''))"
      by simp
    with after show ?thesis by (simp add: logFileName_def)
  qed
  have c: "map_option snd (uploadHandler config (ev\<lparr>log_fault := b\<rparr>) w r) = Some rw" for b
    using uploadHandler_log_fault [where config = config and ev = ev and b = b and w = w and r = r]
      assms(5) by simp
  have d: "CHR ''\<newline>'' \<notin> set ?msg"
    if "CHR ''\<newline>'' \<notin> set f"
      "LogTimestamp config \<longrightarrow> CHR ''\<newline>'' \<notin> set (time_Now ev)"
    using that by simp
  from a b c d show ?thesis by (simp cong: if_cong)
qed

theorem upload_log_line_witness:
  "\<exists>w' rw.
      uploadHandler config0 env0 world0 (post_file ''report.final.pdf'' ''%PDF-1.4'') = Some (w', rw)
    \<and> status rw = 200
    \<and> os_Stat world0 logFileName = Inr (File ''old.txt\<newline>'')
    \<and> os_Stat w' logFileName
        = Inr (File ''old.txt\<newline>report.final.pdf [2024-01-02 03:04:05]\<newline>'')
    \<and> CHR ''\<newline>'' \<notin> set ''report.final.pdf [2024-01-02 03:04:05]''
    \<and> map_option snd (uploadHandler config0 (env0\<lparr>log_fault := True\<rparr>) world0
                         (post_file ''report.final.pdf'' ''%PDF-1.4'')) = Some rw"
proof -
  let ?r = "post_file ''report.final.pdf'' ''%PDF-1.4''"
  have "map_option (status \<circ> snd) (uploadHandler config0 env0 world0 ?r) = Some 200"
    by code_simp
  then obtain w' rw where run: "uploadHandler config0 env0 world0 ?r = Some (w', rw)"
    and ok: "status rw = 200"
    by (cases "uploadHandler config0 env0 world0 ?r") auto
  have m: "Method ?r = ''POST''" and ff: "FormFile ?r = Some (''report.final.pdf'', ''%PDF-1.4'')"
    by (simp_all add: post_file_def)
  have st: "os_Stat world0 uploadsDir
              = Inr (Dir [(''b.txt'', File ''hello world''), (''sub'', Dir [(''c.bin'', File ''xyz'')]),
                          (''.pdf'', File ''0123456789'')])"
    by code_simp
  have ns: "CHR ''/'' \<notin> set (fst (generateUUID env0 world0))" by code_simp
  have lg: "os_Stat world0 logFileName = Inr (File ''old.txt\<newline>'')" by code_simp
  have nf: "\<not> log_fault env0" and ts: "LogTimestamp config0"
    and tm: "time_Now env0 = ''2024-01-02 03:04:05''"
    by (simp_all add: env0_def config0_def)
  have nl: "CHR ''\<newline>'' \<notin> set ''report.final.pdf''"
    "CHR ''\<newline>'' \<notin> set (time_Now env0)"
    by (simp_all add: env0_def)
  from upload_log_line [OF m ff st ns run ok] lg nf ts tm nl run ok show ?thesis
    by auto
qed

text \<open>
  C8 as the specification states it does not hold: more than one line may be
  appended. The file name of the part is what \<open>mime/multipart\<close> decodes from the
  request, and it may hold a line break. In \<open>world0\<close> the upload of a file whose
  name is \<open>a\<close>, a line break and \<open>b.txt\<close> is completed with status 200, and the
  log, which held one line, then holds three.
\<close>

theorem upload_logs_two_lines:
  "os_Stat world0 logFileName = Inr (File ''old.txt\<newline>'')
   \<and> map_option (\<lambda>(w', rw). (status rw, os_Stat w' logFileName))
         (uploadHandler config0 env0 world0 (post_file ''a\<newline>b.txt'' ''x''))
       = Some (200, Inr (File ''old.txt\<newline>a\<newline>b.txt [2024-01-02 03:04:05]\<newline>''))"
  by code_simp

subsection \<open>An upload when no identifier can be generated\<close>

text \<open>
  C6 (as amended). If \<open>uuid.NewRandom\<close> fails, \<open>generateUUID\<close> prints the failure
  and returns the empty string, and the upload goes on with the extension of the
  file name as identifier. If the extension is empty or a lone dot, the joined
  path is the storage directory itself, the file cannot be created and the
  response is 500. If the extension has more than the dot (and no zero byte),
  the copy does not fail and no directory of that name is in the storage
  directory, the response is the page of a successful upload with the link
  \<open>/file/<extension>\<close>, and the file \<open>uploads/<extension>\<close> starts with the uploaded
  bytes (and holds exactly these when no file of that name was there before).
\<close>

theorem upload_without_entropy:
  assumes "uuid_NewRandom ev = Inl e" and "Method r = ''POST''" and "FormFile r = Some (f, content)"
    and "os_Stat w uploadsDir = Inr (Dir ents)"
  shows
    "generateUUID ev w = ([], Println w (CannotGenerateUUID e))
     \<and> (Ext f = [] \<or> Ext f = ''.'' \<longrightarrow>
          uploadHandler config ev w r
            = Some (Println (Println w (CannotGenerateUUID e)) (CannotCreateFile EISDIR),
                    http_Error new_response ''Internal Server Error'' 500))
     \<and> (Ext f \<noteq> [] \<and> Ext f \<noteq> ''.'' \<and> CHR 0x00 \<notin> set (Ext f) \<and> copy_fault ev = None
          \<and> (\<forall>sub. map_of ents (Ext f) \<noteq> Some (Dir sub)) \<longrightarrow>
          (\<exists>w' stored.
             uploadHandler config ev w r
               = Some (w', Fprintf new_response upload_format
                             [CustomHTMLHead config, CustomHTMLBody config, ''/file/'' @ Ext f])
           \<and> os_Stat w' (''uploads/'' @ Ext f) = Inr (File stored)
           \<and> take (length content) stored = content
           \<and> (map_of ents (Ext f) = None \<longrightarrow> stored = content)))"
proof -
  let ?w1 = "Println w (CannotGenerateUUID e)"
  from assms(1) have g: "generateUUID ev w = ([], ?w1)" by (simp add: generateUUID_def)
  from os_Stat_uploads [OF assms(4)] obtain cents
    where cw: "lookup_abs (fs_root w) (cwd w) = Inr (Dir cents)"
      and up: "map_of cents ''uploads'' = Some (Dir ents)"
    by blast
  from cw have cw1: "lookup_abs (fs_root ?w1) (cwd ?w1) = Inr (Dir cents)" by simp
  have a: "uploadHandler config ev w r
             = Some (Println ?w1 (CannotCreateFile EISDIR),
                     http_Error new_response ''Internal Server Error'' 500)"
    if "Ext f = [] \<or> Ext f = ''.''"
  proof -
    from that Join_uploads [of "Ext f"] have "Join [uploadsDir, Ext f] = ''uploads''" by auto
    with os_OpenFile_directory(1) [OF cw1 up, of "[O_WRONLY, O_CREATE]"] assms(2,3) g
    show ?thesis by (simp add: uploadHandler_def)
  qed
  have b: "\<exists>w' stored.
             uploadHandler config ev w r
               = Some (w', Fprintf new_response upload_format
                             [CustomHTMLHead config, CustomHTMLBody config, ''/file/'' @ Ext f])
           \<and> os_Stat w' (''uploads/'' @ Ext f) = Inr (File stored)
           \<and> take (length content) stored = content
           \<and> (map_of ents (Ext f) = None \<longrightarrow> stored = content)"
    if h: "Ext f \<noteq> []" "Ext f \<noteq> ''.''" "CHR 0x00 \<notin> set (Ext f)" "copy_fault ev = None"
      "\<forall>sub. map_of ents (Ext f) \<noteq> Some (Dir sub)"
  proof -
    from Ext_shape [of f] h(1,2) obtain x
      where x: "Ext f = CHR ''.'' # x" "CHR ''.'' \<notin> set x" "CHR ''/'' \<notin> set x" "x \<noteq> []"
      by auto
    with h(3) have plain: "plain_name ([] @ Ext f)" by (auto simp: plain_name_def)
    from h(5) have nodir: "\<forall>sub. map_of ents ([] @ Ext f) \<noteq> Some (Dir sub)" by simp
    from upload_succeeds [OF assms(2,3,4) g plain nodir h(4), of config] obtain w'
      where run: "uploadHandler config ev w r
                    = Some (w', Fprintf new_response upload_format
                                  [CustomHTMLHead config, CustomHTMLBody config, ''/file/'' @ Ext f])"
      by auto
    have ok: "status (Fprintf new_response upload_format
                        [CustomHTMLHead config, CustomHTMLBody config, ''/file/'' @ Ext f]) = 200"
      by (simp add: new_response_def)
    have ns: "CHR ''/'' \<notin> set (fst (generateUUID ev w))" using g by simp
    from upload_stored [OF assms(2,3,4) ns run ok] g obtain old
      where "map_of ents (Ext f) = None \<and> old = [] \<or> map_of ents (Ext f) = Some (File old)"
        and "os_Stat w' (''uploads/'' @ Ext f) = Inr (File (content @ drop (length content) old))"
      by auto
    with run show ?thesis by auto
  qed
  from g a b show ?thesis by blast
qed

theorem upload_without_entropy_witness:
  "generateUUID (env0\<lparr>uuid_NewRandom := Inl EIO\<rparr>) world0
     = ([], Println world0 (CannotGenerateUUID EIO))
   \<and> uploadHandler config0 (env0\<lparr>uuid_NewRandom := Inl EIO\<rparr>) world0 (post_file ''README'' ''hello'')
     = Some (Println (Println world0 (CannotGenerateUUID EIO)) (CannotCreateFile EISDIR),
             http_Error new_response ''Internal Server Error'' 500)
   \<and> (\<exists>w' stored.
         uploadHandler config0 (env0\<lparr>uuid_NewRandom := Inl EIO\<rparr>) world0 (post_file ''b.pdf'' ''XY'')
           = Some (w', Fprintf new_response upload_format
                         [CustomHTMLHead config0, CustomHTMLBody config0, ''/file/.pdf''])
       \<and> os_Stat w' ''uploads/.pdf'' = Inr (File stored)
       \<and> take (length ''XY'') stored = ''XY'')"
proof -
  let ?ev = "env0\<lparr>uuid_NewRandom := Inl EIO\<rparr>"
  let ?ents = "[(''b.txt'', File ''hello world''), (''sub'', Dir [(''c.bin'', File ''xyz'')]),
                (''.pdf'', File ''0123456789'')]"
  have u: "uuid_NewRandom ?ev = Inl EIO" by simp
  have st: "os_Stat world0 uploadsDir = Inr (Dir ?ents)" by code_simp
  have m: "Method (post_file n c) = ''POST''" and ff: "FormFile (post_file n c) = Some (n, c)" for n c
    by (simp_all add: post_file_def)
  have e1: "Ext ''README'' = []" and e2: "Ext ''b.pdf'' = ''.pdf''" by code_simp+
  have cf: "copy_fault ?ev = None" by (simp add: env0_def)
  from upload_without_entropy
         [OF u m [of "''README''" "''hello''"] ff [of "''README''" "''hello''"] st,
          where config = config0] e1
  have a: "generateUUID ?ev world0 = ([], Println world0 (CannotGenerateUUID EIO))"
    and b: "uploadHandler config0 ?ev world0 (post_file ''README'' ''hello'')
              = Some (Println (Println world0 (CannotGenerateUUID EIO)) (CannotCreateFile EISDIR),
                      http_Error new_response ''Internal Server Error'' 500)"
    by simp_all
  from upload_without_entropy
         [OF u m [of "''b.pdf''" "''XY''"] ff [of "''b.pdf''" "''XY''"] st,
          where config = config0] cf
  have c: "\<exists>w' stored.
         uploadHandler config0 ?ev world0 (post_file ''b.pdf'' ''XY'')
           = Some (w', Fprintf new_response upload_format
                         [CustomHTMLHead config0, CustomHTMLBody config0, ''/file/.pdf''])
       \<and> os_Stat w' ''uploads/.pdf'' = Inr (File stored)
       \<and> take (length ''XY'') stored = ''XY''"
    unfolding e2 by auto
  from a b c show ?thesis by blast
qed

text \<open>
  C6 as the specification states it does not hold: without entropy the upload
  of a file without extension fails. In \<open>world0\<close> the upload of \<open>README\<close> is
  answered with 500 when \<open>uuid.NewRandom\<close> fails and with 200 when it does not.
\<close>

theorem upload_fails_without_entropy_and_extension:
  "map_option (status \<circ> snd)
     (uploadHandler config0 (env0\<lparr>uuid_NewRandom := Inl EIO\<rparr>) world0 (post_file ''README'' ''hello''))
     = Some 500
   \<and> map_option (status \<circ> snd)
       (uploadHandler config0 env0 world0 (post_file ''README'' ''hello''))
     = Some 200"
  by code_simp

subsection \<open>The content of the stored file\<close>

text \<open>
  C5. The target is opened with \<open>O_WRONLY|O_CREATE\<close> (line 129), without
  \<open>O_TRUNC\<close> and without \<open>O_EXCL\<close>: a file that is already there under the target
  name keeps the bytes beyond those the upload writes (lemma \<open>upload_stored\<close>).
  In \<open>world0\<close> the storage directory holds \<open>.pdf\<close> with ten bytes; the upload of
  the two bytes \<open>XY\<close> as \<open>b.pdf\<close>, while \<open>uuid.NewRandom\<close> fails, is answered with
  200 and leaves \<open>XY23456789\<close> in \<open>uploads/.pdf\<close>, not the uploaded bytes.
\<close>

theorem upload_keeps_old_tail:
  "os_Stat world0 ''uploads/.pdf'' = Inr (File ''0123456789'')
   \<and> map_option (\<lambda>(w', rw). (status rw, os_Stat w' ''uploads/.pdf''))
       (uploadHandler config0 (env0\<lparr>uuid_NewRandom := Inl EIO\<rparr>) world0 (post_file ''b.pdf'' ''XY''))
     = Some (200, Inr (File ''XY23456789''))"
  by code_simp

subsection \<open>The list of stored files\<close>

text \<open>
  C2. When the storage root is a directory (a well-formed tree), \<open>getFileList\<close>
  returns a list that has exactly one entry for every path that leads from the
  root to a regular file, at any depth, and none for a directory: the
  identifier of the entry is the path relative to the root (its names joined by
  separators), and its display name is the base name of that relative path,
  which is the last name of the path.
\<close>

theorem list_enumerates_files:
  assumes "os_Lstat w uploadsDir = Inr (Dir ents)" and "wf_node (Dir ents)"
  shows "\<exists>files. getFileList w = Inr files
           \<and> distinct (map ID files)
           \<and> set files = {\<lparr>ID = join_sep p, Filename = Base (join_sep p)\<rparr> | p.
                            \<exists>c. lookup_abs (Dir ents) p = Inr (File c)}
           \<and> (\<forall>p c. lookup_abs (Dir ents) p = Inr (File c) \<longrightarrow> Base (join_sep p) = last p)"
proof -
  let ?entry = "\<lambda>p. \<lparr>ID = join_sep p, Filename = Base (join_sep p)\<rparr>"
  from walk_ok [OF assms(2), of "[]" "[]"] obtain ps
    where run: "walk listFn ''uploads'' (Dir ents) [] = Inr (map ?entry ps)"
      and dps: "distinct ps"
      and sps: "set ps = {p. \<exists>c. lookup_abs (Dir ents) p = Inr (File c)}"
    by auto
  have plain: "list_all plain_name p \<and> p \<noteq> []" if "lookup_abs (Dir ents) p = Inr (File c)" for p c
    using wf_lookup [OF assms(2) that] that by (cases p) auto
  from run assms(1) have g: "getFileList w = Inr (map ?entry ps)"
    by (simp add: getFileList_def filepath_Walk_def uploadsDir_def)
  have "inj_on join_sep (set ps)"
  proof (rule inj_onI)
    fix p q assume "p \<in> set ps" "q \<in> set ps" and eq: "join_sep p = join_sep q"
    with sps obtain c c' where "lookup_abs (Dir ents) p = Inr (File c)"
      "lookup_abs (Dir ents) q = Inr (File c')" by auto
    from plain [OF this(1)] plain [OF this(2)] eq show "p = q"
      by (intro join_sep_inj) simp_all
  qed
  with dps have d: "distinct (map ID (map ?entry ps))"
    by (simp add: distinct_map comp_def)
  have s: "set (map ?entry ps) = {?entry p | p. \<exists>c. lookup_abs (Dir ents) p = Inr (File c)}"
    using sps by auto
  have b: "Base (join_sep p) = last p" if "lookup_abs (Dir ents) p = Inr (File c)" for p c
    using plain [OF that] by (simp add: Base_join_sep)
  from g d s b show ?thesis by blast
qed

theorem list_enumerates_files_witness:
  "\<exists>files. getFileList world0 = Inr files
     \<and> distinct (map ID files)
     \<and> set files = {\<lparr>ID = join_sep p, Filename = Base (join_sep p)\<rparr> | p.
          \<exists>c. lookup_abs
                 (Dir [(''b.txt'', File ''hello world''), (''sub'', Dir [(''c.bin'', File ''xyz'')]),
                       (''.pdf'', File ''0123456789'')]) p = Inr (File c)}
     \<and> \<lparr>ID = ''sub/c.bin'', Filename = ''c.bin''\<rparr> \<in> set files"
proof -
  let ?ents = "[(''b.txt'', File ''hello world''), (''sub'', Dir [(''c.bin'', File ''xyz'')]),
                (''.pdf'', File ''0123456789'')]"
  have st: "os_Lstat world0 uploadsDir = Inr (Dir ?ents)" by code_simp
  have wf: "wf_node (Dir ?ents)" by (simp add: plain_name_def)
  from list_enumerates_files [OF st wf] obtain files
    where g: "getFileList world0 = Inr files" and d: "distinct (map ID files)"
      and s: "set files = {\<lparr>ID = join_sep p, Filename = Base (join_sep p)\<rparr> | p.
                \<exists>c. lookup_abs (Dir ?ents) p = Inr (File c)}"
    by blast
  from g getFileList_world0
  have "files = [\<lparr>ID = ''.pdf'', Filename = ''.pdf''\<rparr>, \<lparr>ID = ''b.txt'', Filename = ''b.txt''\<rparr>,
                 \<lparr>ID = ''sub/c.bin'', Filename = ''c.bin''\<rparr>]"
    by simp
  then have "\<lparr>ID = ''sub/c.bin'', Filename = ''c.bin''\<rparr> \<in> set files"
    by simp
  with g d s show ?thesis by blast
qed

end
